theory Spec2Isabelle
  imports Main "HOL-Library.Word"
begin

unbundle bit_operations_syntax

section \<open>The Timer1 driver (TimerOne.cpp) as state transformers\<close>

text \<open>
  The driver runs on an ATmega168/328: \<open>char\<close> and the control registers are 8 bits
  wide, \<open>int\<close>/\<open>unsigned int\<close> and the registers TCNT1, ICR1, OCR1A, OCR1B are 16 bits
  wide, \<open>long\<close>/\<open>unsigned long\<close> are 32 bits wide. Signed values are words read with
  \<open>sint\<close>, unsigned ones words read with \<open>uint\<close>/\<open>unat\<close>.
\<close>

type_synonym u8 = "8 word"
type_synonym u16 = "16 word"
type_synonym long = "32 word"
type_synonym ulong = "32 word"

subsection \<open>Build-time macros\<close>

text \<open>
  \<open>F_CPU\<close> (the clock frequency in Hz, given by the build) and \<open>RESOLUTION\<close>
  (defined in TimerOne.h) are not defined in TimerOne.cpp; every function that uses them
  takes them as a parameter. Both are constants of type \<open>long\<close>; \<open>F_CPU\<close> is a
  positive frequency, so that its quotients are the same read signed or unsigned.
\<close>

record macros =
  F_CPU :: long
  RESOLUTION :: long

subsection \<open>Register bits\<close>

text \<open>
  Bit numbers of the ATmega168/328 register map (the device header of the toolchain);
  the \<open>switch\<close> of \<open>read()\<close> on the values 1 to 5 relies on CS10, CS11, CS12 being
  the bits 0, 1, 2.
\<close>

definition CS10 :: nat where "CS10 = 0"
definition CS11 :: nat where "CS11 = 1"
definition CS12 :: nat where "CS12 = 2"
definition WGM13 :: nat where "WGM13 = 4"
definition COM1A1 :: nat where "COM1A1 = 7"
definition COM1B1 :: nat where "COM1B1 = 5"
definition TOIE1 :: nat where "TOIE1 = 0"
definition PSRSYNC :: nat where "PSRSYNC = 0"
definition PORTB1 :: nat where "PORTB1 = 1"
definition PORTB2 :: nat where "PORTB2 = 2"
definition SREG_I :: nat where "SREG_I = 7"

text \<open>The macro \<open>_BV(n)\<close>, that is \<open>1 << n\<close>, as a byte.\<close>

definition BV :: "nat \<Rightarrow> u8" where
  "BV n = push_bit n 1"

subsection \<open>State\<close>

text \<open>
  Every access to one of the four 16-bit registers is recorded, in program order, with
  the value the global interrupt flag (bit I of SREG) has at that moment: \<open>True\<close> means
  that interrupts are enabled during the access.
\<close>

datatype reg16 = TCNT1_reg | ICR1_reg | OCR1A_reg | OCR1B_reg

datatype dir = Rd | Wr

type_synonym access = "dir \<times> reg16 \<times> bool"

text \<open>
  Modelled from the spec: the class declaration (TimerOne.h) is not among the sources.
  The members are the ones the member functions use: \<open>pwmPeriod\<close> (the counter-top, a
  16-bit unsigned value), \<open>clockSelectBits\<close> (a byte), \<open>oldSREG\<close> (a byte) and
  \<open>isrCallback\<close> (a function pointer, here the address of the function). The other
  fields are the hardware registers the functions touch, and the record of the 16-bit
  accesses. The interrupt service routine, which calls \<open>isrCallback\<close>, is not part of
  the model.
\<close>

record timer =
  TCCR1A :: u8
  TCCR1B :: u8
  TIMSK1 :: u8
  GTCCR :: u8
  DDRB :: u8
  SREG :: u8
  ICR1 :: u16
  OCR1A :: u16
  OCR1B :: u16
  TCNT1 :: u16
  pwmPeriod :: u16
  clockSelectBits :: u8
  oldSREG :: u8
  isrCallback :: nat
  accesses :: "access list"

definition cli :: "timer \<Rightarrow> timer" where
  "cli s = s\<lparr>SREG := SREG s AND NOT (BV SREG_I)\<rparr>"

definition access16 :: "dir \<Rightarrow> reg16 \<Rightarrow> timer \<Rightarrow> timer" where
  "access16 d r s = s\<lparr>accesses := accesses s @ [(d, r, bit (SREG s) SREG_I)]\<rparr>"

subsection \<open>Period and prescaler\<close>

text \<open>
  Lines 65 to 91 of \<open>setPeriod\<close>: the cycle count and the chain of tests, each of
  which shifts \<open>cycles\<close> further (\<open>>>=\<close> on a \<open>long\<close> is an arithmetic shift). The
  result is the value of \<open>clockSelectBits\<close> and the final value of \<open>cycles\<close>.

  The product \<open>(F_CPU / 2000000) * microseconds\<close> is taken modulo \<open>2 ^ 32\<close> and read as
  a signed \<open>long\<close>, which is what the compiled code computes. It is the integer product
  whenever that fits a \<open>long\<close>; a period of \<open>2 ^ 28\<close> microseconds or more at 16 MHz
  does not fit.
\<close>

definition cycles_of :: "macros \<Rightarrow> long \<Rightarrow> long" where
  "cycles_of b microseconds = (F_CPU b div 2000000) * microseconds"

definition prescale :: "macros \<Rightarrow> long \<Rightarrow> u8 \<times> long" where
  "prescale b cycles =
    (if sint cycles < sint (RESOLUTION b) then (BV CS10, cycles)
     else let cycles = signed_drop_bit 3 cycles in
     if sint cycles < sint (RESOLUTION b) then (BV CS11, cycles)
     else let cycles = signed_drop_bit 3 cycles in
     if sint cycles < sint (RESOLUTION b) then (BV CS11 OR BV CS10, cycles)
     else let cycles = signed_drop_bit 2 cycles in
     if sint cycles < sint (RESOLUTION b) then (BV CS12, cycles)
     else let cycles = signed_drop_bit 2 cycles in
     if sint cycles < sint (RESOLUTION b) then (BV CS12 OR BV CS10, cycles)
     else (BV CS12 OR BV CS10, RESOLUTION b - 1))"

definition setPeriod :: "macros \<Rightarrow> long \<Rightarrow> timer \<Rightarrow> timer" where
  "setPeriod b microseconds s =
    (let (csb, cycles) = prescale b (cycles_of b microseconds);
         s = s\<lparr>clockSelectBits := csb\<rparr>;
         s = s\<lparr>oldSREG := SREG s\<rparr>;
         s = cli s;
         s = s\<lparr>pwmPeriod := ucast cycles\<rparr>;
         s = access16 Wr ICR1_reg (s\<lparr>ICR1 := pwmPeriod s\<rparr>);
         s = s\<lparr>SREG := oldSREG s\<rparr>;
         s = s\<lparr>TCCR1B := TCCR1B s AND NOT (BV CS10 OR BV CS11 OR BV CS12)\<rparr>
     in s\<lparr>TCCR1B := TCCR1B s OR clockSelectBits s\<rparr>)"

definition initialize :: "macros \<Rightarrow> long \<Rightarrow> timer \<Rightarrow> timer" where
  "initialize b microseconds s =
    (let s = s\<lparr>TCCR1A := 0\<rparr>;
         s = s\<lparr>TCCR1B := BV WGM13\<rparr>
     in setPeriod b microseconds s)"

subsection \<open>Run state\<close>

definition resume :: "timer \<Rightarrow> timer" where
  "resume s = s\<lparr>TCCR1B := TCCR1B s OR clockSelectBits s\<rparr>"

definition stop :: "timer \<Rightarrow> timer" where
  "stop s = s\<lparr>TCCR1B := TCCR1B s AND NOT (BV CS10 OR BV CS11 OR BV CS12)\<rparr>"

text \<open>
  The counter is advanced by the hardware, not by the driver. A function that reads
  TCNT1 takes the readings as a parameter: \<open>tc i\<close> is the value that the \<open>i\<close>-th
  read of the call finds in the register. The field \<open>TCNT1\<close> keeps the last value
  written or read.

  The loop at the end of \<open>start()\<close>: it reads the counter, inside its own critical
  section, until the reading is not 0. When every reading is 0 the loop does not end and
  the result is \<open>None\<close>.
\<close>

partial_function (option) start_wait :: "(nat \<Rightarrow> u16) \<Rightarrow> nat \<Rightarrow> timer \<Rightarrow> timer option" where
  "start_wait tc i s =
    (let s = s\<lparr>oldSREG := SREG s\<rparr>;
         s = cli s;
         tcnt1 = tc i;
         s = access16 Rd TCNT1_reg (s\<lparr>TCNT1 := tcnt1\<rparr>);
         s = s\<lparr>SREG := oldSREG s\<rparr>
     in if tcnt1 = 0 then start_wait tc (Suc i) s else Some s)"

declare start_wait.simps [code]

definition start :: "(nat \<Rightarrow> u16) \<Rightarrow> timer \<Rightarrow> timer option" where
  "start tc s =
    (let s = s\<lparr>TIMSK1 := TIMSK1 s AND NOT (BV TOIE1)\<rparr>;
         s = s\<lparr>GTCCR := GTCCR s OR BV PSRSYNC\<rparr>;
         s = s\<lparr>oldSREG := SREG s\<rparr>;
         s = cli s;
         s = access16 Wr TCNT1_reg (s\<lparr>TCNT1 := 0\<rparr>);
         s = s\<lparr>SREG := oldSREG s\<rparr>;
         s = resume s
     in start_wait tc 0 s)"

definition restart :: "(nat \<Rightarrow> u16) \<Rightarrow> timer \<Rightarrow> timer option" where
  "restart tc s = start tc s"

subsection \<open>PWM channels\<close>

text \<open>
  \<open>dutyCycle\<close> is an \<open>unsigned long\<close>: \<open>pwmPeriod\<close> is zero-extended, the \<open>int\<close>
  \<open>duty\<close> is sign-extended, the product is taken modulo \<open>2 ^ 32\<close>, the shift is
  logical, and the assignment to the 16-bit register keeps the low 16 bits.
\<close>

definition setPwmDuty :: "u8 \<Rightarrow> 16 word \<Rightarrow> timer \<Rightarrow> timer" where
  "setPwmDuty pin duty s =
    (let dutyCycle = (ucast (pwmPeriod s) :: ulong);
         dutyCycle = dutyCycle * scast duty;
         dutyCycle = drop_bit 10 dutyCycle;
         s = s\<lparr>oldSREG := SREG s\<rparr>;
         s = cli s;
         s = (if pin = 1 \<or> pin = 9 then access16 Wr OCR1A_reg (s\<lparr>OCR1A := ucast dutyCycle\<rparr>)
              else if pin = 2 \<or> pin = 10 then access16 Wr OCR1B_reg (s\<lparr>OCR1B := ucast dutyCycle\<rparr>)
              else s)
     in s\<lparr>SREG := oldSREG s\<rparr>)"

definition pwm :: "macros \<Rightarrow> u8 \<Rightarrow> 16 word \<Rightarrow> long \<Rightarrow> timer \<Rightarrow> timer" where
  "pwm b pin duty microseconds s =
    (let s = (if 0 < sint microseconds then setPeriod b microseconds s else s);
         s = (if pin = 1 \<or> pin = 9 then
                (let s = s\<lparr>DDRB := DDRB s OR BV PORTB1\<rparr>
                 in s\<lparr>TCCR1A := TCCR1A s OR BV COM1A1\<rparr>)
              else if pin = 2 \<or> pin = 10 then
                (let s = s\<lparr>DDRB := DDRB s OR BV PORTB2\<rparr>
                 in s\<lparr>TCCR1A := TCCR1A s OR BV COM1B1\<rparr>)
              else s);
         s = setPwmDuty pin duty s
     in resume s)"

definition disablePwm :: "u8 \<Rightarrow> timer \<Rightarrow> timer" where
  "disablePwm pin s =
    (if pin = 1 \<or> pin = 9 then s\<lparr>TCCR1A := TCCR1A s AND NOT (BV COM1A1)\<rparr>
     else if pin = 2 \<or> pin = 10 then s\<lparr>TCCR1A := TCCR1A s AND NOT (BV COM1B1)\<rparr>
     else s)"

subsection \<open>Interrupt binding\<close>

definition attachInterrupt :: "macros \<Rightarrow> nat \<Rightarrow> long \<Rightarrow> timer \<Rightarrow> timer" where
  "attachInterrupt b isr microseconds s =
    (let s = (if 0 < sint microseconds then setPeriod b microseconds s else s);
         s = s\<lparr>isrCallback := isr\<rparr>;
         s = s\<lparr>TIMSK1 := BV TOIE1\<rparr>
     in resume s)"

definition detachInterrupt :: "timer \<Rightarrow> timer" where
  "detachInterrupt s = s\<lparr>TIMSK1 := TIMSK1 s AND NOT (BV TOIE1)\<rparr>"

subsection \<open>Reading the timer\<close>

text \<open>The \<open>switch\<close> on \<open>clockSelectBits\<close>; \<open>scale\<close> starts as 0.\<close>

definition scale_of :: "u8 \<Rightarrow> nat" where
  "scale_of csb =
    (if csb = 1 then 0
     else if csb = 2 then 3
     else if csb = 3 then 6
     else if csb = 4 then 8
     else if csb = 5 then 10
     else 0)"

text \<open>
  The loop of \<open>read()\<close>: it reads the counter, inside its own critical section, until
  the reading differs from \<open>tmp\<close>. When no reading differs the loop does not end and the
  result is \<open>None\<close>.
\<close>

partial_function (option) read_wait :: "(nat \<Rightarrow> u16) \<Rightarrow> ulong \<Rightarrow> nat \<Rightarrow> timer \<Rightarrow> (u16 \<times> timer) option" where
  "read_wait tc tmp i s =
    (let s = s\<lparr>oldSREG := SREG s\<rparr>;
         s = cli s;
         tcnt1 = tc i;
         s = access16 Rd TCNT1_reg (s\<lparr>TCNT1 := tcnt1\<rparr>);
         s = s\<lparr>SREG := oldSREG s\<rparr>
     in if ucast tcnt1 = tmp then read_wait tc tmp (Suc i) s else Some (tcnt1, s))"

declare read_wait.simps [code]

text \<open>
  Line 285. In the first branch no register is read; in the second ICR1 is read twice.
  The difference \<open>ICR1 - tcnt1\<close> is a 16-bit difference, then both operands are widened.
\<close>

definition elapsed :: "ulong \<Rightarrow> u16 \<Rightarrow> timer \<Rightarrow> ulong \<times> timer" where
  "elapsed tmp tcnt1 s =
    (if tmp < ucast tcnt1 then (tmp, s)
     else (ucast (ICR1 s - tcnt1) + ucast (ICR1 s),
           access16 Rd ICR1_reg (access16 Rd ICR1_reg s)))"

text \<open>
  Line 287, in \<open>unsigned long\<close> arithmetic. The division is by \<open>F_CPU / 1000\<close>; where
  that is 0 the function has no result.
\<close>

definition to_micros :: "macros \<Rightarrow> nat \<Rightarrow> ulong \<Rightarrow> ulong option" where
  "to_micros b scale tmp =
    (if F_CPU b div 1000 = 0 then None
     else Some (push_bit scale ((tmp * 1000) div (F_CPU b div 1000))))"

definition read :: "macros \<Rightarrow> (nat \<Rightarrow> u16) \<Rightarrow> timer \<Rightarrow> (ulong \<times> timer) option" where
  "read b tc s =
    (let s = s\<lparr>oldSREG := SREG s\<rparr>;
         s = cli s;
         tmp = (ucast (tc 0) :: ulong);
         s = access16 Rd TCNT1_reg (s\<lparr>TCNT1 := tc 0\<rparr>);
         s = s\<lparr>SREG := oldSREG s\<rparr>;
         scale = scale_of (clockSelectBits s)
     in case read_wait tc tmp 1 s of
          None \<Rightarrow> None
        | Some (tcnt1, s) \<Rightarrow>
            (let (tmp, s) = elapsed tmp tcnt1 s
             in case to_micros b scale tmp of
                  None \<Rightarrow> None
                | Some us \<Rightarrow> Some (us, s)))"

subsection \<open>Reference values\<close>

text \<open>The ordered sequence of prescale dividers, as the specification lists it.\<close>

definition spec_dividers :: "int list" where
  "spec_dividers = [1, 8, 64, 256, 1024]"

text \<open>
  A build for a 16 MHz clock with \<open>RESOLUTION\<close> 65536, and the registers after a reset
  with interrupts enabled; they serve as concrete inputs.
\<close>

definition atmega_16MHz :: macros where
  "atmega_16MHz = \<lparr>F_CPU = 16000000, RESOLUTION = 65536\<rparr>"

definition reset_state :: timer where
  "reset_state = \<lparr>TCCR1A = 0, TCCR1B = 0, TIMSK1 = 0, GTCCR = 0, DDRB = 0, SREG = 0x80,
     ICR1 = 0, OCR1A = 0, OCR1B = 0, TCNT1 = 0, pwmPeriod = 0, clockSelectBits = 0,
     oldSREG = 0, isrCallback = 0, accesses = []\<rparr>"

text \<open>
  The run state Stopped of the specification: all clock-select bits of TCCR1B are
  clear, so that the counter does not advance.
\<close>

definition Stopped :: "timer \<Rightarrow> bool" where
  "Stopped s = (TCCR1B s AND (BV CS10 OR BV CS11 OR BV CS12) = 0)"

text \<open>
  The state after \<open>n\<close> reads of TCNT1, each inside its own critical section, the last
  of which found \<open>v\<close>: \<open>oldSREG\<close> holds SREG, which is restored, and every read is
  recorded as made with interrupts disabled.
\<close>

definition sampled :: "nat \<Rightarrow> u16 \<Rightarrow> timer \<Rightarrow> timer" where
  "sampled n v s =
    s\<lparr>oldSREG := SREG s, TCNT1 := v,
      accesses := accesses s @ replicate n (Rd, TCNT1_reg, False)\<rparr>"

text \<open>
  The timer after \<open>setPeriod(125)\<close> on the reset state, at 16 MHz: the counter-top is
  1000, no prescaling, the clock runs and interrupts are enabled. The readings
  \<open>down_samples\<close> are those of a counter that counts down: 100, 100, then 99.
\<close>

definition running_1000 :: timer where
  "running_1000 = setPeriod atmega_16MHz 125 reset_state"

definition down_samples :: "nat \<Rightarrow> u16" where
  "down_samples i = (if i < 2 then 100 else 99)"

text \<open>
  The elapsed-time formulas in the words of the specification: the tick count of the
  down-count phase, and the conversion of ticks to microseconds.
\<close>

definition spec_down_ticks :: "int \<Rightarrow> int \<Rightarrow> int \<Rightarrow> int" where
  "spec_down_ticks firstSample secondSample counterTop =
    firstSample + (counterTop - secondSample) + counterTop"

definition spec_micros :: "int \<Rightarrow> int \<Rightarrow> nat \<Rightarrow> int" where
  "spec_micros clockFrequency ticks scale =
    (ticks * 1000 div (clockFrequency div 1000)) * 2 ^ scale"

section \<open>Properties\<close>

subsection \<open>Auxiliary facts\<close>

lemmas bit_defs = CS10_def CS11_def CS12_def WGM13_def COM1A1_def COM1B1_def TOIE1_def
  PSRSYNC_def PORTB1_def PORTB2_def SREG_I_def BV_def

lemma cli_bit: "bit (w AND - 129 :: 8 word) 7 = False"
  by (simp add: bit_simps)

lemma prescale_int:
  "prescale b w =
    (if sint w < sint (RESOLUTION b) then (1, w)
     else if sint w div 8 < sint (RESOLUTION b) then (2, signed_drop_bit 3 w)
     else if sint w div 64 < sint (RESOLUTION b) then (3, signed_drop_bit 6 w)
     else if sint w div 256 < sint (RESOLUTION b) then (4, signed_drop_bit 8 w)
     else if sint w div 1024 < sint (RESOLUTION b) then (5, signed_drop_bit 10 w)
     else (5, RESOLUTION b - 1))"
  by (simp add: prescale_def Let_def bit_defs sint_signed_drop_bit_eq drop_bit_eq_div)

lemma prescale_cases [case_names d1 d8 d64 d256 d1024 saturated]:
  obtains
    "sint w < sint (RESOLUTION b)" "prescale b w = (1, w)"
  | "\<not> sint w < sint (RESOLUTION b)" "sint w div 8 < sint (RESOLUTION b)"
    "prescale b w = (2, signed_drop_bit 3 w)"
  | "\<not> sint w < sint (RESOLUTION b)" "\<not> sint w div 8 < sint (RESOLUTION b)"
    "sint w div 64 < sint (RESOLUTION b)" "prescale b w = (3, signed_drop_bit 6 w)"
  | "\<not> sint w < sint (RESOLUTION b)" "\<not> sint w div 8 < sint (RESOLUTION b)"
    "\<not> sint w div 64 < sint (RESOLUTION b)" "sint w div 256 < sint (RESOLUTION b)"
    "prescale b w = (4, signed_drop_bit 8 w)"
  | "\<not> sint w < sint (RESOLUTION b)" "\<not> sint w div 8 < sint (RESOLUTION b)"
    "\<not> sint w div 64 < sint (RESOLUTION b)" "\<not> sint w div 256 < sint (RESOLUTION b)"
    "sint w div 1024 < sint (RESOLUTION b)" "prescale b w = (5, signed_drop_bit 10 w)"
  | "\<not> sint w < sint (RESOLUTION b)" "\<not> sint w div 8 < sint (RESOLUTION b)"
    "\<not> sint w div 64 < sint (RESOLUTION b)" "\<not> sint w div 256 < sint (RESOLUTION b)"
    "\<not> sint w div 1024 < sint (RESOLUTION b)" "prescale b w = (5, RESOLUTION b - 1)"
proof -
  let ?R = "sint (RESOLUTION b)"
  consider (a) "sint w < ?R"
    | (b) "\<not> sint w < ?R" "sint w div 8 < ?R"
    | (c) "\<not> sint w < ?R" "\<not> sint w div 8 < ?R" "sint w div 64 < ?R"
    | (d) "\<not> sint w < ?R" "\<not> sint w div 8 < ?R" "\<not> sint w div 64 < ?R"
        "sint w div 256 < ?R"
    | (e) "\<not> sint w < ?R" "\<not> sint w div 8 < ?R" "\<not> sint w div 64 < ?R"
        "\<not> sint w div 256 < ?R" "sint w div 1024 < ?R"
    | (f) "\<not> sint w < ?R" "\<not> sint w div 8 < ?R" "\<not> sint w div 64 < ?R"
        "\<not> sint w div 256 < ?R" "\<not> sint w div 1024 < ?R"
    by blast
  then show thesis
  proof cases
    case a
    moreover from a have "prescale b w = (1, w)" by (simp add: prescale_int)
    ultimately show thesis by (rule that(1))
  next
    case b
    moreover from b have "prescale b w = (2, signed_drop_bit 3 w)" by (simp add: prescale_int)
    ultimately show thesis by (rule that(2))
  next
    case c
    moreover from c have "prescale b w = (3, signed_drop_bit 6 w)" by (simp add: prescale_int)
    ultimately show thesis by (rule that(3))
  next
    case d
    moreover from d have "prescale b w = (4, signed_drop_bit 8 w)" by (simp add: prescale_int)
    ultimately show thesis by (rule that(4))
  next
    case e
    moreover from e have "prescale b w = (5, signed_drop_bit 10 w)" by (simp add: prescale_int)
    ultimately show thesis by (rule that(5))
  next
    case f
    moreover from f have "prescale b w = (5, RESOLUTION b - 1)" by (simp add: prescale_int)
    ultimately show thesis by (rule that(6))
  qed
qed

lemma fst_prescale: "fst (prescale b w) \<in> {1, 2, 3, 4, 5}"
  by (simp add: prescale_int)

lemma setPeriod_eq:
  "setPeriod b us s =
     s\<lparr>TCCR1B := (TCCR1B s AND NOT 7) OR fst (prescale b (cycles_of b us)),
       ICR1 := ucast (snd (prescale b (cycles_of b us))),
       pwmPeriod := ucast (snd (prescale b (cycles_of b us))),
       clockSelectBits := fst (prescale b (cycles_of b us)),
       oldSREG := SREG s,
       accesses := accesses s @ [(Wr, ICR1_reg, False)]\<rparr>"
  by (simp add: setPeriod_def Let_def cli_def access16_def bit_defs cli_bit split: prod.splits)

lemma sint_k: "sint (F_CPU b div 2000000) = uint (F_CPU b) div 2000000"
proof -
  have "uint (F_CPU b) < 2 ^ 32" using uint_lt2p [of "F_CPU b"] by simp
  then have "uint (F_CPU b div 2000000) < 2 ^ 31" by (simp add: uint_div)
  moreover have "- (2 ^ 31) \<le> uint (F_CPU b div 2000000)"
    by (rule order_trans [of _ 0]) simp_all
  ultimately have "signed_take_bit 31 (uint (F_CPU b div 2000000)) = uint (F_CPU b div 2000000)"
    by (intro signed_take_bit_int_eq_self)
  then have "sint (F_CPU b div 2000000) = uint (F_CPU b div 2000000)"
    by (simp add: sint_uint)
  then show ?thesis by (simp add: uint_div)
qed

lemma sint_cycles_of:
  assumes "- (2 ^ 31) \<le> uint (F_CPU b) div 2000000 * sint us"
    and "uint (F_CPU b) div 2000000 * sint us < 2 ^ 31"
  shows "sint (cycles_of b us) = uint (F_CPU b) div 2000000 * sint us"
  using assms by (simp add: cycles_of_def sint_word_ariths sint_k signed_take_bit_int_eq_self)

lemma sint_shift: "sint (signed_drop_bit n (w :: long)) = sint w div 2 ^ n"
  by (simp add: sint_signed_drop_bit_eq drop_bit_eq_div)

lemma uint_ucast_small:
  assumes "0 \<le> sint (w :: long)" and "sint w < 65536"
  shows "uint (ucast w :: u16) = sint w"
proof -
  have "uint w = take_bit 32 (sint w)" by (simp add: uint_sint)
  also have "\<dots> = sint w" using assms by (simp add: take_bit_int_eq_self)
  finally have u: "uint w = sint w" .
  have "uint (ucast w :: u16) = take_bit 16 (uint w)" by (simp add: unsigned_ucast_eq)
  then show ?thesis using assms u by (simp add: take_bit_int_eq_self)
qed

lemma top_word: "(ucast (signed_drop_bit n (c :: long)) :: u16) = word_of_int (sint c div 2 ^ n)"
proof -
  have "word_of_int (sint (signed_drop_bit n c)) = (scast (signed_drop_bit n c) :: u16)"
    by simp
  moreover have "(ucast (signed_drop_bit n c) :: u16) = scast (signed_drop_bit n c)"
    by (rule bit_word_eqI) (auto simp add: bit_word_ucast_iff bit_word_scast_iff)
  ultimately show ?thesis by (simp add: sint_shift)
qed

lemma top_uint:
  assumes "0 \<le> sint (c :: long)" and "sint c div 2 ^ n < 65536"
  shows "uint (ucast (signed_drop_bit n c) :: u16) = sint c div 2 ^ n"
proof -
  have "0 \<le> sint (signed_drop_bit n c)"
    using assms(1) by (simp add: sint_shift pos_imp_zdiv_nonneg_iff)
  moreover have "sint (signed_drop_bit n c) < 65536"
    using assms(2) by (simp add: sint_shift)
  ultimately have "uint (ucast (signed_drop_bit n c) :: u16) = sint (signed_drop_bit n c)"
    by (rule uint_ucast_small)
  then show ?thesis by (simp add: sint_shift)
qed

lemma find_dividers:
  "find P spec_dividers =
    (if P 1 then Some 1 else if P 8 then Some 8 else if P 64 then Some 64
     else if P 256 then Some 256 else if P 1024 then Some 1024 else None)"
  by (simp add: spec_dividers_def)

lemma setPeriod_clockSelectBits:
  "clockSelectBits (setPeriod b us s) = fst (prescale b (cycles_of b us))"
  by (simp add: setPeriod_eq)

lemma setPeriod_pwmPeriod:
  "pwmPeriod (setPeriod b us s) = ucast (snd (prescale b (cycles_of b us)))"
  by (simp add: setPeriod_eq)

lemma setPeriod_ICR1:
  "ICR1 (setPeriod b us s) = ucast (snd (prescale b (cycles_of b us)))"
  by (simp add: setPeriod_eq)

lemmas setPeriod_sel = setPeriod_clockSelectBits setPeriod_pwmPeriod setPeriod_ICR1

lemma cycles_bounds:
  assumes "sint p1 \<le> sint p2"
    and "- (2 ^ 31) \<le> uint (F_CPU b) div 2000000 * sint p1"
    and "uint (F_CPU b) div 2000000 * sint p2 < 2 ^ 31"
  shows "sint (cycles_of b p1) \<le> sint (cycles_of b p2)"
proof -
  have k: "0 \<le> uint (F_CPU b) div 2000000" by (simp add: pos_imp_zdiv_nonneg_iff)
  have le: "uint (F_CPU b) div 2000000 * sint p1 \<le> uint (F_CPU b) div 2000000 * sint p2"
    using assms(1) k by (rule mult_left_mono)
  have "sint (cycles_of b p1) = uint (F_CPU b) div 2000000 * sint p1"
    using assms(2,3) le by (intro sint_cycles_of) linarith+
  moreover have "sint (cycles_of b p2) = uint (F_CPU b) div 2000000 * sint p2"
    using assms(2,3) le by (intro sint_cycles_of) linarith+
  ultimately show ?thesis using le by simp
qed

lemma scale_prescale:
  "scale_of (fst (prescale b w)) =
    (if sint w < sint (RESOLUTION b) then 0
     else if sint w div 8 < sint (RESOLUTION b) then 3
     else if sint w div 64 < sint (RESOLUTION b) then 6
     else if sint w div 256 < sint (RESOLUTION b) then 8
     else 10)"
  by (simp add: prescale_int scale_of_def)

lemma chain_mono:
  fixes a0 a3 a6 a8 b0 b3 b6 b8 R :: int
  assumes "a0 \<le> b0" "a3 \<le> b3" "a6 \<le> b6" "a8 \<le> b8"
  shows "(if a0 < R then 0 else if a3 < R then 3 else if a6 < R then 6 else if a8 < R then 8 else (10::nat))
       \<le> (if b0 < R then 0 else if b3 < R then 3 else if b6 < R then 6 else if b8 < R then 8 else 10)"
  using assms by auto

lemma scale_mono:
  assumes "sint w1 \<le> sint w2"
  shows "scale_of (fst (prescale b w1)) \<le> scale_of (fst (prescale b w2))"
  unfolding scale_prescale
  by (rule chain_mono) (use assms in \<open>simp_all add: zdiv_mono1\<close>)

lemma sint_pred:
  assumes "0 < sint (r :: long)"
  shows "sint (r - 1) = sint r - 1"
proof -
  have lt: "sint r < 2 ^ 31" using sint_lt [of r] by simp
  have "signed_take_bit 31 (sint r - 1) = sint r - 1"
  proof (rule signed_take_bit_int_eq_self)
    show "- (2 ^ 31) \<le> sint r - 1" using assms by simp
    show "sint r - 1 < 2 ^ 31" using lt by simp
  qed
  then show ?thesis by (simp add: sint_word_ariths)
qed

lemma cycles_1s: "sint (cycles_of atmega_16MHz 1000000) = 8000000"
  by (simp add: cycles_of_def atmega_16MHz_def)

lemma cycles_10s: "sint (cycles_of atmega_16MHz 10000000) = 80000000"
  by (simp add: cycles_of_def atmega_16MHz_def)

lemma RESOLUTION_16MHz: "sint (RESOLUTION atmega_16MHz) = 65536"
  by (simp add: atmega_16MHz_def)

lemma running_1000_eq:
  "running_1000 = \<lparr>TCCR1A = 0, TCCR1B = 1, TIMSK1 = 0, GTCCR = 0, DDRB = 0, SREG = 0x80,
     ICR1 = 1000, OCR1A = 0, OCR1B = 0, TCNT1 = 0, pwmPeriod = 1000, clockSelectBits = 1,
     oldSREG = 0x80, isrCallback = 0, accesses = [(Wr, ICR1_reg, False)]\<rparr>"
  by (simp add: running_1000_def setPeriod_eq prescale_int cycles_of_def atmega_16MHz_def reset_state_def)

lemma down_samples_facts:
  "0 < (2 :: nat)" "down_samples 2 \<noteq> down_samples 0"
  "\<forall>k. 0 < k \<and> k < 2 \<longrightarrow> down_samples k = down_samples 0"
  "down_samples 2 \<le> down_samples 0" "down_samples 2 = 99" "down_samples 0 = 100"
  by (simp_all add: down_samples_def)

lemma F_CPU_16MHz: "F_CPU atmega_16MHz div 1000 \<noteq> 0" "F_CPU atmega_16MHz div 1000 = 16000"
  by (simp_all add: atmega_16MHz_def)

lemma drop_word:
  "(ucast (drop_bit 10 (word_of_int Y :: ulong)) :: u16) = word_of_int (drop_bit 10 Y)"
  by (rule bit_word_eqI) (auto simp add: bit_simps)

lemma duty_word:
  "(ucast (drop_bit 10 ((ucast (p :: u16) :: ulong) * scast (d :: 16 word))) :: u16)
     = word_of_int ((uint p * sint d) div 1024)"
proof -
  let ?Y = "uint p * sint d"
  have e: "(ucast p :: ulong) * scast d = word_of_int ?Y"
    by simp
  have v: "?Y div 1024 = drop_bit 10 ?Y"
    by (simp add: drop_bit_eq_div)
  have "(ucast (drop_bit 10 (word_of_int ?Y :: ulong)) :: u16) = word_of_int (drop_bit 10 ?Y)"
    by (rule drop_word)
  then show ?thesis by (simp only: e v)
qed

lemma duty_exact:
  assumes "0 \<le> sint (d :: 16 word)" and "sint d \<le> 1024"
  shows "uint (word_of_int ((uint (p :: u16) * sint d) div 1024) :: u16) = (uint p * sint d) div 1024"
proof -
  have p: "0 \<le> uint p" "uint p \<le> 65535" using uint_lt2p [of p] by simp_all
  have "uint p * sint d \<le> 65535 * 1024"
    using p assms by (intro mult_mono) simp_all
  then have hi: "(uint p * sint d) div 1024 < 65536" by simp
  have "0 \<le> uint p * sint d" using p assms by simp
  then have lo: "0 \<le> (uint p * sint d) div 1024" by (simp add: pos_imp_zdiv_nonneg_iff)
  show ?thesis using lo hi by (simp add: uint_word_of_int take_bit_int_eq_self take_bit_eq_mod [symmetric])
qed

lemma setPwmDuty_A:
  assumes "pin = 1 \<or> pin = 9"
  shows "setPwmDuty pin duty s =
    s\<lparr>OCR1A := word_of_int ((uint (pwmPeriod s) * sint duty) div 1024),
      oldSREG := SREG s,
      accesses := accesses s @ [(Wr, OCR1A_reg, False)]\<rparr>"
  using assms by (simp add: setPwmDuty_def Let_def cli_def access16_def bit_defs cli_bit duty_word)

lemma setPwmDuty_B:
  assumes "pin = 2 \<or> pin = 10"
  shows "setPwmDuty pin duty s =
    s\<lparr>OCR1B := word_of_int ((uint (pwmPeriod s) * sint duty) div 1024),
      oldSREG := SREG s,
      accesses := accesses s @ [(Wr, OCR1B_reg, False)]\<rparr>"
proof -
  from assms have "pin \<noteq> 1" "pin \<noteq> 9" by auto
  with assms show ?thesis
    by (simp add: setPwmDuty_def Let_def cli_def access16_def bit_defs cli_bit duty_word)
qed

lemma setPwmDuty_other:
  assumes "pin \<noteq> 1" "pin \<noteq> 9" "pin \<noteq> 2" "pin \<noteq> 10"
  shows "setPwmDuty pin duty s = s\<lparr>oldSREG := SREG s\<rparr>"
  using assms by (simp add: setPwmDuty_def Let_def cli_def)

lemma setPwmDuty_frame:
  "TCCR1A (setPwmDuty pin duty s) = TCCR1A s \<and> TCCR1B (setPwmDuty pin duty s) = TCCR1B s
   \<and> TIMSK1 (setPwmDuty pin duty s) = TIMSK1 s \<and> GTCCR (setPwmDuty pin duty s) = GTCCR s
   \<and> DDRB (setPwmDuty pin duty s) = DDRB s \<and> SREG (setPwmDuty pin duty s) = SREG s
   \<and> ICR1 (setPwmDuty pin duty s) = ICR1 s \<and> TCNT1 (setPwmDuty pin duty s) = TCNT1 s
   \<and> pwmPeriod (setPwmDuty pin duty s) = pwmPeriod s
   \<and> clockSelectBits (setPwmDuty pin duty s) = clockSelectBits s
   \<and> isrCallback (setPwmDuty pin duty s) = isrCallback s"
  by (simp add: setPwmDuty_def Let_def cli_def access16_def)

lemma setPeriod_oldSREG: "(setPeriod b us s)\<lparr>oldSREG := SREG (setPeriod b us s)\<rparr> = setPeriod b us s"
  by (simp add: setPeriod_eq)

lemma pwm_other:
  assumes "pin \<noteq> 1" "pin \<noteq> 9" "pin \<noteq> 2" "pin \<noteq> 10"
  shows "pwm b pin duty us s =
    resume (if 0 < sint us then setPeriod b us s else s\<lparr>oldSREG := SREG s\<rparr>)"
  using assms by (simp add: pwm_def Let_def setPwmDuty_other setPeriod_oldSREG)

lemma sampled_sampled:
  "sampled n v (sampled m u s) = sampled (m + n) v s"
  by (simp add: sampled_def replicate_add)

lemma start_wait_step:
  "start_wait tc i s =
    (if tc i = 0 then start_wait tc (Suc i) (sampled 1 (tc i) s) else Some (sampled 1 (tc i) s))"
  by (subst start_wait.simps) (simp add: Let_def cli_def access16_def bit_defs cli_bit sampled_def)

lemma read_wait_step:
  "read_wait tc tmp i s =
    (if ucast (tc i) = tmp then read_wait tc tmp (Suc i) (sampled 1 (tc i) s)
     else Some (tc i, sampled 1 (tc i) s))"
  by (subst read_wait.simps) (simp add: Let_def cli_def access16_def bit_defs cli_bit sampled_def)

lemma start_wait_returns:
  assumes "tc j \<noteq> 0" and "i \<le> j" and "\<forall>k. i \<le> k \<and> k < j \<longrightarrow> tc k = 0"
  shows "start_wait tc i s = Some (sampled (Suc (j - i)) (tc j) s)"
  using assms
proof (induction "j - i" arbitrary: i s)
  case 0
  then have "i = j" by simp
  with 0 show ?case by (subst start_wait_step) simp
next
  case (Suc d)
  then have lt: "i < j" and z: "tc i = 0" by auto
  have "start_wait tc (Suc i) (sampled 1 (tc i) s)
      = Some (sampled (Suc (j - Suc i)) (tc j) (sampled 1 (tc i) s))"
    using Suc lt by (intro Suc.hyps(1)) auto
  moreover have "Suc (j - i) = 1 + Suc (j - Suc i)" using lt by simp
  ultimately show ?case using z
    by (subst start_wait_step) (simp add: sampled_sampled)
qed

lemma read_wait_returns:
  assumes "ucast (tc j) \<noteq> tmp" and "i \<le> j" and "\<forall>k. i \<le> k \<and> k < j \<longrightarrow> ucast (tc k) = tmp"
  shows "read_wait tc tmp i s = Some (tc j, sampled (Suc (j - i)) (tc j) s)"
  using assms
proof (induction "j - i" arbitrary: i s)
  case 0
  then have "i = j" by simp
  with 0 show ?case by (subst read_wait_step) simp
next
  case (Suc d)
  then have lt: "i < j" and z: "ucast (tc i) = tmp" by auto
  have "read_wait tc tmp (Suc i) (sampled 1 (tc i) s)
      = Some (tc j, sampled (Suc (j - Suc i)) (tc j) (sampled 1 (tc i) s))"
    using Suc lt by (intro Suc.hyps(1)) auto
  moreover have "Suc (j - i) = 1 + Suc (j - Suc i)" using lt by simp
  ultimately show ?case using z
    by (subst read_wait_step) (simp add: sampled_sampled)
qed

lemma start_wait_Some:
  assumes "start_wait tc i s = Some s'"
  shows "\<exists>n v. s' = sampled (Suc n) v s \<and> v \<noteq> 0"
proof (rule start_wait.raw_induct
    [where P = "\<lambda>tc i s s'. \<exists>n v. s' = sampled (Suc n) v s \<and> v \<noteq> 0", OF _ assms], goal_cases)
  case (1 f tc i s s')
  show ?case
  proof (cases "tc i = 0")
    case True
    with 1(2) have "f tc (Suc i) (sampled 1 (tc i) s) = Some s'"
      by (simp add: Let_def cli_def access16_def bit_defs cli_bit sampled_def)
    from 1(1) [OF this] obtain n v where "s' = sampled (Suc n) v (sampled 1 (tc i) s)" "v \<noteq> 0"
      by blast
    then have "s' = sampled (Suc (Suc n)) v s \<and> v \<noteq> 0" by (simp add: sampled_sampled)
    then show ?thesis by blast
  next
    case False
    with 1(2) have "s' = sampled (Suc 0) (tc i) s"
      by (simp add: Let_def cli_def access16_def bit_defs cli_bit sampled_def)
    with False show ?thesis by blast
  qed
qed

lemma read_wait_Some:
  assumes "read_wait tc tmp i s = Some r"
  shows "\<exists>n. snd r = sampled (Suc n) (fst r) s \<and> ucast (fst r) \<noteq> tmp"
proof (rule read_wait.raw_induct
    [where P = "\<lambda>tc tmp i s r. \<exists>n. snd r = sampled (Suc n) (fst r) s \<and> ucast (fst r) \<noteq> tmp",
     OF _ assms], goal_cases)
  case (1 f tc tmp i s r)
  show ?case
  proof (cases "ucast (tc i) = tmp")
    case True
    with 1(2) have "f tc tmp (Suc i) (sampled 1 (tc i) s) = Some r"
      by (simp add: Let_def cli_def access16_def bit_defs cli_bit sampled_def)
    from 1(1) [OF this] obtain n
      where "snd r = sampled (Suc n) (fst r) (sampled 1 (tc i) s)" "ucast (fst r) \<noteq> tmp"
      by blast
    then have "snd r = sampled (Suc (Suc n)) (fst r) s \<and> ucast (fst r) \<noteq> tmp"
      by (simp add: sampled_sampled)
    then show ?thesis by blast
  next
    case False
    with 1(2) have "r = (tc i, sampled (Suc 0) (tc i) s)"
      by (auto simp add: Let_def cli_def access16_def bit_defs cli_bit sampled_def)
    with False have "snd r = sampled (Suc 0) (fst r) s \<and> ucast (fst r) \<noteq> tmp" by simp
    then show ?thesis by blast
  qed
qed

lemma start_clockSelectBits:
  assumes "start tc s = Some s'"
  shows "clockSelectBits s' = clockSelectBits s"
proof -
  from assms obtain s0 where w: "start_wait tc 0 s0 = Some s'"
    and c: "clockSelectBits s0 = clockSelectBits s"
    by (simp add: start_def Let_def cli_def access16_def resume_def)
  from start_wait_Some [OF w] obtain n v where "s' = sampled (Suc n) v s0" by blast
  with c show ?thesis by (simp add: sampled_def)
qed

lemma read_clockSelectBits:
  assumes "read b tc s = Some (v, s')"
  shows "clockSelectBits s' = clockSelectBits s"
proof -
  let ?s0 = "sampled 1 (tc 0) s"
  have r: "read b tc s =
    (case read_wait tc (ucast (tc 0)) 1 ?s0 of
       None \<Rightarrow> None
     | Some (tcnt1, s1) \<Rightarrow>
         (let (tmp, s2) = elapsed (ucast (tc 0)) tcnt1 s1
          in case to_micros b (scale_of (clockSelectBits s)) tmp of
               None \<Rightarrow> None
             | Some us \<Rightarrow> Some (us, s2)))"
    by (simp add: read_def Let_def cli_def access16_def bit_defs cli_bit sampled_def
        cong: option.case_cong)
  from assms obtain tcnt1 s1 where w: "read_wait tc (ucast (tc 0)) 1 ?s0 = Some (tcnt1, s1)"
    unfolding r by (auto split: option.splits)
  from read_wait_Some [OF w] obtain n where "s1 = sampled (Suc n) tcnt1 ?s0" by auto
  then have c1: "clockSelectBits s1 = clockSelectBits s" by (simp add: sampled_def)
  from assms w have "s' = snd (elapsed (ucast (tc 0)) tcnt1 s1)"
    unfolding r by (auto split: option.splits prod.splits)
  then have "clockSelectBits s' = clockSelectBits s1"
    by (simp add: elapsed_def access16_def)
  with c1 show ?thesis by simp
qed

lemma pwmPeriod_bound:
  assumes "65536 \<le> sint (RESOLUTION b)
     \<or> (0 < sint (RESOLUTION b) \<and> 0 \<le> sint us \<and> uint (F_CPU b) div 2000000 * sint us < 2 ^ 31)"
  shows "uint (pwmPeriod (setPeriod b us s)) < sint (RESOLUTION b)"
proof (cases "sint (RESOLUTION b) \<le> 65535")
  case False
  have "uint (pwmPeriod (setPeriod b us s)) < 2 ^ 16"
    using uint_lt2p [of "pwmPeriod (setPeriod b us s)"] by simp
  with False show ?thesis by simp
next
  case True
  with assms have R: "0 < sint (RESOLUTION b)" and us: "0 \<le> sint us"
    and hi: "uint (F_CPU b) div 2000000 * sint us < 2 ^ 31"
    by auto
  let ?c = "cycles_of b us"
  let ?R = "sint (RESOLUTION b)"
  have k: "0 \<le> uint (F_CPU b) div 2000000" by (simp add: pos_imp_zdiv_nonneg_iff)
  have lo: "- (2 ^ 31) \<le> uint (F_CPU b) div 2000000 * sint us"
    by (rule order_trans [of _ 0]) (use k us in simp_all)
  have c: "sint ?c = uint (F_CPU b) div 2000000 * sint us"
    using lo hi by (rule sint_cycles_of)
  then have nn: "0 \<le> sint ?c" using k us by simp
  have u: "uint (ucast (signed_drop_bit n ?c) :: u16) = sint ?c div 2 ^ n"
    if "sint ?c div 2 ^ n < ?R" for n
    using that nn True by (simp add: top_uint)
  show ?thesis
  proof (cases rule: prescale_cases [of ?c b])
    case d1
    with u [of 0] show ?thesis by (simp add: setPeriod_pwmPeriod)
  next
    case d8
    with u [of 3] show ?thesis by (simp add: setPeriod_pwmPeriod)
  next
    case d64
    with u [of 6] show ?thesis by (simp add: setPeriod_pwmPeriod)
  next
    case d256
    with u [of 8] show ?thesis by (simp add: setPeriod_pwmPeriod)
  next
    case d1024
    with u [of 10] show ?thesis by (simp add: setPeriod_pwmPeriod)
  next
    case saturated
    have m: "sint (RESOLUTION b - 1) = ?R - 1" using R by (rule sint_pred)
    have "uint (ucast (RESOLUTION b - 1) :: u16) = ?R - 1"
      using True R m by (simp add: uint_ucast_small)
    with saturated show ?thesis by (simp add: setPeriod_pwmPeriod)
  qed
qed

lemma pwmPeriod_initialize:
  "pwmPeriod (initialize b us s) = pwmPeriod (setPeriod b us s)"
  by (simp add: initialize_def setPeriod_pwmPeriod)

lemma clockSelectBits_initialize:
  "clockSelectBits (initialize b us s) = clockSelectBits (setPeriod b us s)"
  by (simp add: initialize_def setPeriod_clockSelectBits)

lemma clockSelectBits_simple:
  "clockSelectBits (setPwmDuty pin duty s) = clockSelectBits s"
  "clockSelectBits (disablePwm pin s) = clockSelectBits s"
  "clockSelectBits (detachInterrupt s) = clockSelectBits s"
  "clockSelectBits (resume s) = clockSelectBits s"
  "clockSelectBits (stop s) = clockSelectBits s"
  by (simp_all add: setPwmDuty_def disablePwm_def detachInterrupt_def resume_def stop_def
      Let_def cli_def access16_def)

lemma clockSelectBits_pwm:
  "clockSelectBits (pwm b pin duty us s) =
    (if 0 < sint us then clockSelectBits (setPeriod b us s) else clockSelectBits s)"
  by (simp add: pwm_def Let_def clockSelectBits_simple)

lemma clockSelectBits_attachInterrupt:
  "clockSelectBits (attachInterrupt b isr us s) =
    (if 0 < sint us then clockSelectBits (setPeriod b us s) else clockSelectBits s)"
  by (simp add: attachInterrupt_def Let_def clockSelectBits_simple)

lemma ucast_u16_eq: "(ucast (a :: u16) :: ulong) = ucast (b :: u16) \<longleftrightarrow> a = b"
  by (simp add: word_eq_iff_unsigned [where ?'a = nat] unsigned_ucast_eq take_bit_nat_eq_self
      unsigned_less [THEN less_trans])

lemma ucast_u16_less: "(ucast (a :: u16) :: ulong) < ucast (b :: u16) \<longleftrightarrow> a < b"
  by (simp add: word_less_nat_alt unsigned_ucast_eq take_bit_nat_eq_self
      unsigned_less [THEN less_trans])

lemma read_unfold:
  "read b tc s =
    (case read_wait tc (ucast (tc 0)) (Suc 0) (sampled (Suc 0) (tc 0) s) of
       None \<Rightarrow> None
     | Some (tcnt1, s1) \<Rightarrow>
         (let (tmp, s2) = elapsed (ucast (tc 0)) tcnt1 s1
          in case to_micros b (scale_of (clockSelectBits s)) tmp of
               None \<Rightarrow> None
             | Some us \<Rightarrow> Some (us, s2)))"
  by (simp add: read_def Let_def cli_def access16_def bit_defs cli_bit sampled_def
      cong: option.case_cong)

lemma read_returns:
  assumes f: "F_CPU b div 1000 \<noteq> 0" and j: "0 < j" and ch: "tc j \<noteq> tc 0"
    and same: "\<forall>k. 0 < k \<and> k < j \<longrightarrow> tc k = tc 0"
  shows "read b tc s =
    Some (push_bit (scale_of (clockSelectBits s))
            ((fst (elapsed (ucast (tc 0)) (tc j) (sampled (Suc j) (tc j) s)) * 1000)
               div (F_CPU b div 1000)),
          snd (elapsed (ucast (tc 0)) (tc j) (sampled (Suc j) (tc j) s)))"
proof -
  have "read_wait tc (ucast (tc 0)) (Suc 0) (sampled (Suc 0) (tc 0) s)
      = Some (tc j, sampled (Suc (j - Suc 0)) (tc j) (sampled (Suc 0) (tc 0) s))"
    using ch j same by (intro read_wait_returns) (auto simp add: ucast_u16_eq)
  moreover have "sampled (Suc (j - Suc 0)) (tc j) (sampled (Suc 0) (tc 0) s)
      = sampled (Suc j) (tc j) s"
    using j by (simp add: sampled_sampled)
  ultimately have w: "read_wait tc (ucast (tc 0)) (Suc 0) (sampled (Suc 0) (tc 0) s)
      = Some (tc j, sampled (Suc j) (tc j) s)"
    by simp
  show ?thesis using f by (simp add: read_unfold w to_micros_def split: prod.splits)
qed

lemma elapsed_down:
  assumes "second \<le> first"
  shows "elapsed (ucast first) second s =
    (ucast (ICR1 s - second) + ucast (ICR1 s),
     s\<lparr>accesses := accesses s @
        [(Rd, ICR1_reg, bit (SREG s) SREG_I), (Rd, ICR1_reg, bit (SREG s) SREG_I)]\<rparr>)"
proof -
  from assms have "\<not> first < second" by (rule leD)
  then show ?thesis by (simp add: elapsed_def ucast_u16_less access16_def)
qed

lemma down_ticks_int:
  assumes "(second :: u16) \<le> icr"
  shows "uint (ucast (icr - second) + ucast icr :: ulong) = (uint icr - uint second) + uint icr"
proof -
  have u: "uint (ucast x :: ulong) = uint x" for x :: u16
    by (simp add: uint_up_ucast is_up)
  from assms have "uint second \<le> uint icr" by (simp add: word_le_def)
  then have s: "uint (icr - second) = uint icr - uint second"
    by (rule uint_sub_lem [THEN iffD1])
  have lt: "uint icr < 65536" using uint_lt2p [of icr] by simp
  have ge: "0 \<le> uint second" by simp
  have "(uint icr - uint second) + uint icr < 4294967296" using lt ge by linarith
  then have "uint (ucast (icr - second) :: ulong) + uint (ucast icr :: ulong) < 2 ^ LENGTH(32)"
    by (simp add: u s)
  then have "uint (ucast (icr - second) + ucast icr :: ulong)
      = uint (ucast (icr - second) :: ulong) + uint (ucast icr :: ulong)"
    by (rule uint_add_lem [THEN iffD1])
  then show ?thesis by (simp only: u s)
qed

lemma read_down:
  assumes "F_CPU b div 1000 \<noteq> 0" and "0 < j" and "tc j \<noteq> tc 0"
    and "\<forall>k. 0 < k \<and> k < j \<longrightarrow> tc k = tc 0"
    and "tc j \<le> tc 0"
  shows "read b tc s =
    Some (push_bit (scale_of (clockSelectBits s))
            (((ucast (ICR1 s - tc j) + ucast (ICR1 s)) * 1000) div (F_CPU b div 1000)),
          s\<lparr>oldSREG := SREG s, TCNT1 := tc j,
            accesses := accesses s @ replicate (Suc j) (Rd, TCNT1_reg, False) @
              [(Rd, ICR1_reg, bit (SREG s) SREG_I), (Rd, ICR1_reg, bit (SREG s) SREG_I)]\<rparr>)"
proof -
  have r: "read b tc s =
    Some (push_bit (scale_of (clockSelectBits s))
            ((fst (elapsed (ucast (tc 0)) (tc j) (sampled (Suc j) (tc j) s)) * 1000)
               div (F_CPU b div 1000)),
          snd (elapsed (ucast (tc 0)) (tc j) (sampled (Suc j) (tc j) s)))"
    using assms(1-4) by (rule read_returns)
  have e: "elapsed (ucast (tc 0)) (tc j) (sampled (Suc j) (tc j) s) =
    (ucast (ICR1 s - tc j) + ucast (ICR1 s),
     s\<lparr>oldSREG := SREG s, TCNT1 := tc j,
       accesses := accesses s @ replicate (Suc j) (Rd, TCNT1_reg, False) @
         [(Rd, ICR1_reg, bit (SREG s) SREG_I), (Rd, ICR1_reg, bit (SREG s) SREG_I)]\<rparr>)"
    by (simp add: elapsed_down [OF assms(5)] sampled_def)
  show ?thesis by (simp only: r e fst_conv snd_conv)
qed

subsection \<open>Prescale selection\<close>

text \<open>
  Claim C1. \<open>setPeriod\<close> computes \<open>cycles\<close> as the 32-bit product
  \<open>(F_CPU / 2000000) * microseconds\<close>, which is the integer product whenever that fits a
  \<open>long\<close>. For every period for which some divider of the sequence 1, 8, 64, 256, 1024
  brings \<open>cycles / divider\<close> below \<open>RESOLUTION\<close>, the first such divider \<open>d\<close> is the
  one selected (the divider of a clock-select value is two to the power of the shift that
  \<open>read()\<close> associates with it), and both \<open>pwmPeriod\<close> and ICR1 receive
  \<open>cycles / d\<close>, converted to 16 bits. For a nonnegative cycle count and \<open>RESOLUTION\<close>
  at most 65536 the conversion changes nothing.
\<close>

theorem setPeriod_selects_smallest_divider:
  assumes d: "find (\<lambda>d. sint (cycles_of b microseconds) div d < sint (RESOLUTION b))
              spec_dividers = Some d"
  shows "cycles_of b microseconds = (F_CPU b div 2000000) * microseconds
    \<and> (- (2 ^ 31) \<le> uint (F_CPU b) div 2000000 * sint microseconds
        \<and> uint (F_CPU b) div 2000000 * sint microseconds < 2 ^ 31
       \<longrightarrow> sint (cycles_of b microseconds) = uint (F_CPU b) div 2000000 * sint microseconds)
    \<and> 2 ^ scale_of (clockSelectBits (setPeriod b microseconds s)) = d
    \<and> pwmPeriod (setPeriod b microseconds s) = word_of_int (sint (cycles_of b microseconds) div d)
    \<and> ICR1 (setPeriod b microseconds s) = word_of_int (sint (cycles_of b microseconds) div d)
    \<and> (0 \<le> sint (cycles_of b microseconds) \<and> sint (RESOLUTION b) \<le> 65536 \<longrightarrow>
         uint (pwmPeriod (setPeriod b microseconds s)) = sint (cycles_of b microseconds) div d
       \<and> uint (ICR1 (setPeriod b microseconds s)) = sint (cycles_of b microseconds) div d)"
proof -
  let ?c = "cycles_of b microseconds"
  let ?R = "sint (RESOLUTION b)"
  have c: "- (2 ^ 31) \<le> uint (F_CPU b) div 2000000 * sint microseconds
        \<and> uint (F_CPU b) div 2000000 * sint microseconds < 2 ^ 31
       \<longrightarrow> sint ?c = uint (F_CPU b) div 2000000 * sint microseconds"
    by (simp add: sint_cycles_of)
  have w: "(ucast (signed_drop_bit n ?c) :: u16) = word_of_int (sint ?c div 2 ^ n)" for n
    by (rule top_word)
  have u: "uint (ucast (signed_drop_bit n ?c) :: u16) = sint ?c div 2 ^ n"
    if "0 \<le> sint ?c" and "?R \<le> 65536" and "sint ?c div 2 ^ n < ?R" for n
    using that by (simp add: top_uint)
  have sel: "2 ^ scale_of (clockSelectBits (setPeriod b microseconds s)) = d
    \<and> pwmPeriod (setPeriod b microseconds s) = word_of_int (sint ?c div d)
    \<and> ICR1 (setPeriod b microseconds s) = word_of_int (sint ?c div d)
    \<and> (0 \<le> sint ?c \<and> ?R \<le> 65536 \<longrightarrow>
         uint (pwmPeriod (setPeriod b microseconds s)) = sint ?c div d
       \<and> uint (ICR1 (setPeriod b microseconds s)) = sint ?c div d)"
  proof (cases rule: prescale_cases [of ?c b])
    case d1
    with d have "d = 1" by (simp add: find_dividers)
    with d1 w [of 0] u [of 0] show ?thesis by (simp add: setPeriod_sel scale_of_def)
  next
    case d8
    with d have "d = 8" by (simp add: find_dividers)
    with d8 w [of 3] u [of 3] show ?thesis by (simp add: setPeriod_sel scale_of_def)
  next
    case d64
    with d have "d = 64" by (simp add: find_dividers)
    with d64 w [of 6] u [of 6] show ?thesis by (simp add: setPeriod_sel scale_of_def)
  next
    case d256
    with d have "d = 256" by (simp add: find_dividers)
    with d256 w [of 8] u [of 8] show ?thesis by (simp add: setPeriod_sel scale_of_def)
  next
    case d1024
    with d have "d = 1024" by (simp add: find_dividers)
    with d1024 w [of 10] u [of 10] show ?thesis by (simp add: setPeriod_sel scale_of_def)
  next
    case saturated
    with d show ?thesis by (simp add: find_dividers)
  qed
  show ?thesis by (intro conjI cycles_of_def c sel [THEN conjunct1]
      sel [THEN conjunct2, THEN conjunct1] sel [THEN conjunct2, THEN conjunct2, THEN conjunct1]
      sel [THEN conjunct2, THEN conjunct2, THEN conjunct2])
qed

theorem setPeriod_selects_smallest_divider_witness:
  "find (\<lambda>d. sint (cycles_of atmega_16MHz 1000000) div d < sint (RESOLUTION atmega_16MHz))
      spec_dividers = Some 256
   \<and> - (2 ^ 31) \<le> uint (F_CPU atmega_16MHz) div 2000000 * sint (1000000 :: long)
   \<and> uint (F_CPU atmega_16MHz) div 2000000 * sint (1000000 :: long) < 2 ^ 31
   \<and> 0 \<le> sint (cycles_of atmega_16MHz 1000000) \<and> sint (RESOLUTION atmega_16MHz) \<le> 65536
   \<and> sint (cycles_of atmega_16MHz 1000000) = 8000000
   \<and> 2 ^ scale_of (clockSelectBits (setPeriod atmega_16MHz 1000000 reset_state)) = (256 :: int)
   \<and> uint (pwmPeriod (setPeriod atmega_16MHz 1000000 reset_state)) = 31250
   \<and> uint (ICR1 (setPeriod atmega_16MHz 1000000 reset_state)) = 31250"
proof -
  have d: "find (\<lambda>d. sint (cycles_of atmega_16MHz 1000000) div d < sint (RESOLUTION atmega_16MHz))
      spec_dividers = Some 256"
    by (simp add: cycles_1s RESOLUTION_16MHz spec_dividers_def)
  have lo: "- (2 ^ 31) \<le> uint (F_CPU atmega_16MHz) div 2000000 * sint (1000000 :: long)"
    by (simp add: atmega_16MHz_def)
  have hi: "uint (F_CPU atmega_16MHz) div 2000000 * sint (1000000 :: long) < 2 ^ 31"
    by (simp add: atmega_16MHz_def)
  have nn: "0 \<le> sint (cycles_of atmega_16MHz 1000000)" by (simp add: cycles_1s)
  have r: "sint (RESOLUTION atmega_16MHz) \<le> 65536" by (simp add: RESOLUTION_16MHz)
  have q: "sint (cycles_of atmega_16MHz 1000000) div 256 = 31250" by (simp add: cycles_1s)
  note t = setPeriod_selects_smallest_divider [OF d, of reset_state]
  from t have a: "2 ^ scale_of (clockSelectBits (setPeriod atmega_16MHz 1000000 reset_state)) = (256 :: int)"
    by blast
  from t nn r have "uint (pwmPeriod (setPeriod atmega_16MHz 1000000 reset_state))
      = sint (cycles_of atmega_16MHz 1000000) div 256"
    by blast
  with q have p: "uint (pwmPeriod (setPeriod atmega_16MHz 1000000 reset_state)) = 31250"
    by (simp only:)
  from t nn r have "uint (ICR1 (setPeriod atmega_16MHz 1000000 reset_state))
      = sint (cycles_of atmega_16MHz 1000000) div 256"
    by blast
  with q have i: "uint (ICR1 (setPeriod atmega_16MHz 1000000 reset_state)) = 31250"
    by (simp only:)
  show ?thesis by (intro conjI d lo hi nn r cycles_1s a p i)
qed

text \<open>
  Where the cycle count, the \<open>long\<close> that \<open>setPeriod\<close> computes, is at least
  \<open>RESOLUTION * 1024\<close>, so that even the divider 1024 leaves it at or above
  \<open>RESOLUTION\<close>, \<open>setPeriod\<close> selects the clock-select value of the divider 1024 and
  stores \<open>RESOLUTION - 1\<close> in \<open>pwmPeriod\<close> and ICR1: this is the \<open>else\<close> branch,
  commented "request was out of bounds, set as maximum". \<open>RESOLUTION\<close> is positive.
\<close>

lemma setPeriod_saturates:
  assumes R: "0 < sint (RESOLUTION b)"
    and big: "sint (RESOLUTION b) * 1024 \<le> sint (cycles_of b microseconds)"
  shows "clockSelectBits (setPeriod b microseconds s) = BV CS12 OR BV CS10
    \<and> (2 :: nat) ^ scale_of (clockSelectBits (setPeriod b microseconds s)) = 1024
    \<and> pwmPeriod (setPeriod b microseconds s) = ucast (RESOLUTION b - 1)
    \<and> ICR1 (setPeriod b microseconds s) = ucast (RESOLUTION b - 1)
    \<and> (sint (RESOLUTION b) \<le> 65536 \<longrightarrow>
          uint (pwmPeriod (setPeriod b microseconds s)) = sint (RESOLUTION b) - 1
        \<and> uint (ICR1 (setPeriod b microseconds s)) = sint (RESOLUTION b) - 1)"
proof -
  let ?c = "cycles_of b microseconds"
  let ?R = "sint (RESOLUTION b)"
  have p: "prescale b ?c = (5, RESOLUTION b - 1)"
  proof (cases rule: prescale_cases [of ?c b])
    case d1 with big R show ?thesis by arith
  next
    case d8 with big R show ?thesis by arith
  next
    case d64 with big R show ?thesis by arith
  next
    case d256 with big R show ?thesis by arith
  next
    case d1024 with big R show ?thesis by arith
  next
    case saturated then show ?thesis by simp
  qed
  have m: "sint (RESOLUTION b - 1) = ?R - 1"
    using R by (rule sint_pred)
  have u: "uint (ucast (RESOLUTION b - 1) :: u16) = ?R - 1" if "?R \<le> 65536"
    using that R m by (simp add: uint_ucast_small)
  show ?thesis using p u by (simp add: setPeriod_sel scale_of_def bit_defs)
qed

lemma setPeriod_saturates_10s:
  "0 < sint (RESOLUTION atmega_16MHz)
   \<and> sint (cycles_of atmega_16MHz 10000000) = 80000000
   \<and> sint (RESOLUTION atmega_16MHz) * 1024 \<le> sint (cycles_of atmega_16MHz 10000000)
   \<and> sint (RESOLUTION atmega_16MHz) \<le> 65536
   \<and> clockSelectBits (setPeriod atmega_16MHz 10000000 reset_state) = 5
   \<and> (2 :: nat) ^ scale_of (clockSelectBits (setPeriod atmega_16MHz 10000000 reset_state)) = 1024
   \<and> uint (pwmPeriod (setPeriod atmega_16MHz 10000000 reset_state)) = 65535
   \<and> uint (ICR1 (setPeriod atmega_16MHz 10000000 reset_state)) = 65535"
proof -
  have R: "0 < sint (RESOLUTION atmega_16MHz)"
    by (simp add: RESOLUTION_16MHz)
  have big: "sint (RESOLUTION atmega_16MHz) * 1024 \<le> sint (cycles_of atmega_16MHz 10000000)"
    by (simp add: RESOLUTION_16MHz cycles_10s)
  have r: "sint (RESOLUTION atmega_16MHz) \<le> 65536"
    by (simp add: RESOLUTION_16MHz)
  have v: "sint (RESOLUTION atmega_16MHz) - 1 = 65535"
    by (simp add: RESOLUTION_16MHz)
  have five: "BV CS12 OR BV CS10 = 5"
    by (simp add: bit_defs)
  note t = setPeriod_saturates [OF R big, of reset_state]
  from t five have c1: "clockSelectBits (setPeriod atmega_16MHz 10000000 reset_state) = 5"
    by simp
  from t have c2: "(2 :: nat) ^ scale_of (clockSelectBits (setPeriod atmega_16MHz 10000000 reset_state)) = 1024"
    by blast
  from t r have "uint (pwmPeriod (setPeriod atmega_16MHz 10000000 reset_state))
      = sint (RESOLUTION atmega_16MHz) - 1"
    by blast
  with v have c3: "uint (pwmPeriod (setPeriod atmega_16MHz 10000000 reset_state)) = 65535"
    by (simp only:)
  from t r have "uint (ICR1 (setPeriod atmega_16MHz 10000000 reset_state))
      = sint (RESOLUTION atmega_16MHz) - 1"
    by blast
  with v have c4: "uint (ICR1 (setPeriod atmega_16MHz 10000000 reset_state)) = 65535"
    by (simp only:)
  show ?thesis by (intro conjI R cycles_10s big r c1 c2 c3 c4)
qed

text \<open>
  Claim C5 at a failing input. A period of 268435456 microseconds at 16 MHz has the cycle
  count \<open>8 * 268435456 = 2147483648\<close>, far beyond \<open>RESOLUTION * 1024\<close>, but the product
  does not fit the 32-bit \<open>long\<close>: \<open>cycles\<close> is \<open>- 2147483648\<close>, the first test
  \<open>cycles < RESOLUTION\<close> succeeds, and \<open>setPeriod\<close> selects the divider 1 with the
  counter-top 0 instead of the divider 1024 with the counter-top \<open>RESOLUTION - 1\<close>.
\<close>

theorem setPeriod_overflow_not_saturated:
  "uint (F_CPU atmega_16MHz) div 2000000 * sint (268435456 :: long) = 2147483648
   \<and> sint (RESOLUTION atmega_16MHz) * 1024
       \<le> uint (F_CPU atmega_16MHz) div 2000000 * sint (268435456 :: long)
   \<and> sint (cycles_of atmega_16MHz 268435456) = - 2147483648
   \<and> clockSelectBits (setPeriod atmega_16MHz 268435456 reset_state) = 1
   \<and> (2 :: nat) ^ scale_of (clockSelectBits (setPeriod atmega_16MHz 268435456 reset_state)) = 1
   \<and> uint (pwmPeriod (setPeriod atmega_16MHz 268435456 reset_state)) = 0
   \<and> uint (ICR1 (setPeriod atmega_16MHz 268435456 reset_state)) = 0"
proof -
  have m: "uint (F_CPU atmega_16MHz) div 2000000 * sint (268435456 :: long) = 2147483648"
    by (simp add: atmega_16MHz_def)
  have g: "sint (RESOLUTION atmega_16MHz) * 1024
       \<le> uint (F_CPU atmega_16MHz) div 2000000 * sint (268435456 :: long)"
    unfolding m by (simp add: RESOLUTION_16MHz)
  have c: "sint (cycles_of atmega_16MHz 268435456) = - 2147483648"
    by (simp add: cycles_of_def atmega_16MHz_def)
  have w: "cycles_of atmega_16MHz 268435456 = 2147483648"
    by (simp add: cycles_of_def atmega_16MHz_def)
  have p: "prescale atmega_16MHz (cycles_of atmega_16MHz 268435456)
      = (1, cycles_of atmega_16MHz 268435456)"
    by (simp add: prescale_int c RESOLUTION_16MHz)
  have a: "clockSelectBits (setPeriod atmega_16MHz 268435456 reset_state) = 1"
    by (simp add: setPeriod_sel p)
  have s: "(2 :: nat) ^ scale_of (clockSelectBits (setPeriod atmega_16MHz 268435456 reset_state)) = 1"
    by (simp add: a scale_of_def)
  have q: "snd (prescale atmega_16MHz (cycles_of atmega_16MHz 268435456)) = 2147483648"
    unfolding p by (simp add: w)
  have t: "(ucast (2147483648 :: long) :: u16) = 0"
    by simp
  have u: "uint (pwmPeriod (setPeriod atmega_16MHz 268435456 reset_state)) = 0"
    unfolding setPeriod_pwmPeriod q t by simp
  have i: "uint (ICR1 (setPeriod atmega_16MHz 268435456 reset_state)) = 0"
    unfolding setPeriod_ICR1 q t by simp
  show ?thesis by (intro conjI m g c a s u i)
qed

text \<open>
  Claim C6. For two periods \<open>p1 \<le> p2\<close> whose cycle counts fit the 32-bit \<open>long\<close>,
  the divider that \<open>setPeriod\<close> selects for \<open>p2\<close> is at least the one it selects for
  \<open>p1\<close>, whatever the states the two calls start from.
\<close>

theorem setPeriod_divider_monotone:
  assumes "sint p1 \<le> sint p2"
    and "- (2 ^ 31) \<le> uint (F_CPU b) div 2000000 * sint p1"
    and "uint (F_CPU b) div 2000000 * sint p2 < 2 ^ 31"
  shows "(2 :: nat) ^ scale_of (clockSelectBits (setPeriod b p1 s1))
       \<le> 2 ^ scale_of (clockSelectBits (setPeriod b p2 s2))"
proof -
  have "sint (cycles_of b p1) \<le> sint (cycles_of b p2)" using assms by (rule cycles_bounds)
  then have "scale_of (fst (prescale b (cycles_of b p1))) \<le> scale_of (fst (prescale b (cycles_of b p2)))"
    by (rule scale_mono)
  then show ?thesis by (simp add: setPeriod_clockSelectBits)
qed

theorem setPeriod_divider_monotone_witness:
  "sint (1000 :: long) \<le> sint (1000000 :: long)
   \<and> - (2 ^ 31) \<le> uint (F_CPU atmega_16MHz) div 2000000 * sint (1000 :: long)
   \<and> uint (F_CPU atmega_16MHz) div 2000000 * sint (1000000 :: long) < 2 ^ 31
   \<and> (2 :: nat) ^ scale_of (clockSelectBits (setPeriod atmega_16MHz 1000 reset_state)) = 1
   \<and> (2 :: nat) ^ scale_of (clockSelectBits (setPeriod atmega_16MHz 1000000 reset_state)) = 256
   \<and> (2 :: nat) ^ scale_of (clockSelectBits (setPeriod atmega_16MHz 1000 reset_state))
       \<le> 2 ^ scale_of (clockSelectBits (setPeriod atmega_16MHz 1000000 reset_state))"
proof -
  have le: "sint (1000 :: long) \<le> sint (1000000 :: long)" by simp
  have lo: "- (2 ^ 31) \<le> uint (F_CPU atmega_16MHz) div 2000000 * sint (1000 :: long)"
    by (simp add: atmega_16MHz_def)
  have hi: "uint (F_CPU atmega_16MHz) div 2000000 * sint (1000000 :: long) < 2 ^ 31"
    by (simp add: atmega_16MHz_def)
  have a: "(2 :: nat) ^ scale_of (clockSelectBits (setPeriod atmega_16MHz 1000 reset_state)) = 1"
    by (simp add: setPeriod_clockSelectBits scale_prescale cycles_of_def atmega_16MHz_def)
  have b: "(2 :: nat) ^ scale_of (clockSelectBits (setPeriod atmega_16MHz 1000000 reset_state)) = 256"
    by (simp add: setPeriod_clockSelectBits scale_prescale cycles_of_def atmega_16MHz_def)
  from setPeriod_divider_monotone [OF le lo hi, of reset_state reset_state] le lo hi a b
  show ?thesis by simp
qed

subsection \<open>Initialisation\<close>

text \<open>
  Claim C4, as amended. \<open>initialize\<close> clears TCCR1A, sets TCCR1B to the mode bit WGM13
  alone (the symmetric mode, clock stopped), then runs the prescale selection and programs
  the counter-top; the last step of \<open>setPeriod\<close> writes the selected clock-select bits
  into TCCR1B, so that on return the clock-select bits of TCCR1B are those of
  \<open>clockSelectBits\<close>, which are not all clear: the timer is running, not stopped.
\<close>

theorem initialize_leaves_clock_running:
  "TCCR1A (initialize b microseconds s) = 0
   \<and> TCCR1B (initialize b microseconds s) = BV WGM13 OR clockSelectBits (initialize b microseconds s)
   \<and> clockSelectBits (initialize b microseconds s) = fst (prescale b (cycles_of b microseconds))
   \<and> pwmPeriod (initialize b microseconds s) = ucast (snd (prescale b (cycles_of b microseconds)))
   \<and> ICR1 (initialize b microseconds s) = ucast (snd (prescale b (cycles_of b microseconds)))
   \<and> TCCR1B (initialize b microseconds s) AND (BV CS10 OR BV CS11 OR BV CS12)
       = clockSelectBits (initialize b microseconds s)
   \<and> \<not> Stopped (initialize b microseconds s)"
proof -
  let ?p = "fst (prescale b (cycles_of b microseconds))"
  have f: "?p \<in> {1, 2, 3, 4, 5}" by (rule fst_prescale)
  have a: "(16 OR ?p) AND 7 = ?p" using f by auto
  have n: "?p \<noteq> 0" using f by auto
  show ?thesis using a n
    by (simp add: initialize_def setPeriod_eq bit_defs Stopped_def)
qed

text \<open>
  Claim C4 as stated fails: after \<open>initialize\<close> with a period of 1000 microseconds at
  16 MHz, TCCR1B is \<open>0x11\<close> and the state is not Stopped.
\<close>

theorem initialize_stopped_counterexample:
  "\<not> Stopped (initialize atmega_16MHz 1000 reset_state)"
  by (simp add: initialize_def setPeriod_eq prescale_int cycles_of_def bit_defs Stopped_def atmega_16MHz_def reset_state_def)

subsection \<open>Interrupt binding\<close>

text \<open>
  Claim C10. \<open>attachInterrupt\<close> assigns \<open>_BV(TOIE1)\<close> to TIMSK1: after the call the
  register holds exactly that bit, and every other bit of it is clear, whatever it held
  before.
\<close>

theorem attachInterrupt_overwrites_mask:
  "TIMSK1 (attachInterrupt b isr microseconds s) = BV TOIE1
   \<and> (\<forall>n. n \<noteq> TOIE1 \<longrightarrow> \<not> bit (TIMSK1 (attachInterrupt b isr microseconds s)) n)"
  by (simp add: attachInterrupt_def resume_def Let_def bit_defs bit_simps)

theorem attachInterrupt_overwrites_mask_witness:
  "(1 :: nat) \<noteq> TOIE1
   \<and> bit (TIMSK1 (reset_state\<lparr>TIMSK1 := 6\<rparr>)) (1 :: nat)
   \<and> \<not> bit (TIMSK1 (attachInterrupt atmega_16MHz 0 0 (reset_state\<lparr>TIMSK1 := 6\<rparr>))) (1 :: nat)
   \<and> TIMSK1 (attachInterrupt atmega_16MHz 0 0 (reset_state\<lparr>TIMSK1 := 6\<rparr>)) = 1"
proof -
  have n: "(1 :: nat) \<noteq> TOIE1" by (simp add: TOIE1_def)
  have b: "bit (TIMSK1 (reset_state\<lparr>TIMSK1 := 6\<rparr>)) (1 :: nat)"
    by (simp add: bit_iff_odd_drop_bit)
  note t = attachInterrupt_overwrites_mask [of atmega_16MHz 0 0 "reset_state\<lparr>TIMSK1 := 6\<rparr>"]
  from t n have c: "\<not> bit (TIMSK1 (attachInterrupt atmega_16MHz 0 0 (reset_state\<lparr>TIMSK1 := 6\<rparr>))) (1 :: nat)"
    by blast
  from t have e: "TIMSK1 (attachInterrupt atmega_16MHz 0 0 (reset_state\<lparr>TIMSK1 := 6\<rparr>)) = 1"
    by (simp add: bit_defs)
  show ?thesis by (intro conjI n b c e)
qed

subsection \<open>PWM channels\<close>

text \<open>
  Claim C7, as amended. For a channel identifier other than 1, 9, 2 and 10:
  \<open>disablePwm\<close> changes nothing; \<open>setPwmDuty\<close> changes no register and only stores
  SREG in the driver's \<open>oldSREG\<close>; \<open>pwm\<close> leaves DDRB, TCCR1A, OCR1A and OCR1B as
  they are, but still sets the period when the given period is positive and still calls
  \<open>resume\<close>, which writes the clock-select bits into TCCR1B.
\<close>

theorem invalid_channel_effects:
  assumes "pin \<noteq> 1" and "pin \<noteq> 9" and "pin \<noteq> 2" and "pin \<noteq> 10"
  shows "disablePwm pin s = s
    \<and> setPwmDuty pin duty s = s\<lparr>oldSREG := SREG s\<rparr>
    \<and> pwm b pin duty microseconds s =
        resume (if 0 < sint microseconds then setPeriod b microseconds s
                else s\<lparr>oldSREG := SREG s\<rparr>)
    \<and> DDRB (pwm b pin duty microseconds s) = DDRB s
    \<and> TCCR1A (pwm b pin duty microseconds s) = TCCR1A s
    \<and> OCR1A (pwm b pin duty microseconds s) = OCR1A s
    \<and> OCR1B (pwm b pin duty microseconds s) = OCR1B s"
proof -
  have d: "disablePwm pin s = s" using assms by (simp add: disablePwm_def)
  have p: "pwm b pin duty microseconds s =
        resume (if 0 < sint microseconds then setPeriod b microseconds s
                else s\<lparr>oldSREG := SREG s\<rparr>)"
    using assms by (rule pwm_other)
  have f: "DDRB (pwm b pin duty microseconds s) = DDRB s"
    "TCCR1A (pwm b pin duty microseconds s) = TCCR1A s"
    "OCR1A (pwm b pin duty microseconds s) = OCR1A s"
    "OCR1B (pwm b pin duty microseconds s) = OCR1B s"
    unfolding p by (simp_all add: resume_def setPeriod_eq)
  show ?thesis using d p f setPwmDuty_other [OF assms] by (intro conjI)
qed

theorem invalid_channel_effects_witness:
  "(3 :: u8) \<noteq> 1 \<and> (3 :: u8) \<noteq> 9 \<and> (3 :: u8) \<noteq> 2 \<and> (3 :: u8) \<noteq> 10
   \<and> disablePwm 3 reset_state = reset_state
   \<and> oldSREG (setPwmDuty 3 512 reset_state) = 0x80
   \<and> TCCR1B (pwm atmega_16MHz 3 512 1000 reset_state) = 1"
proof -
  have n: "(3 :: u8) \<noteq> 1" "(3 :: u8) \<noteq> 9" "(3 :: u8) \<noteq> 2" "(3 :: u8) \<noteq> 10" by simp_all
  note t = invalid_channel_effects [OF n, of reset_state 512 atmega_16MHz 1000]
  from t have a: "disablePwm 3 reset_state = reset_state" by blast
  from t have "setPwmDuty 3 512 reset_state = reset_state\<lparr>oldSREG := SREG reset_state\<rparr>" by blast
  then have b: "oldSREG (setPwmDuty 3 512 reset_state) = 0x80" by (simp add: reset_state_def)
  from t have "pwm atmega_16MHz 3 512 1000 reset_state =
        resume (if 0 < sint (1000 :: long) then setPeriod atmega_16MHz 1000 reset_state
                else reset_state\<lparr>oldSREG := SREG reset_state\<rparr>)" by blast
  then have c: "TCCR1B (pwm atmega_16MHz 3 512 1000 reset_state) = 1"
    by (simp add: resume_def setPeriod_eq prescale_int cycles_of_def atmega_16MHz_def reset_state_def)
  show ?thesis by (intro conjI n a b c)
qed

text \<open>
  Claim C7 as stated fails for \<open>pwm\<close>: on a stopped timer, \<open>pwm\<close> with the channel
  identifier 3 starts the clock.
\<close>

theorem invalid_channel_noop_counterexample:
  "Stopped (stop (initialize atmega_16MHz 1000 reset_state))
   \<and> \<not> Stopped (pwm atmega_16MHz 3 0 0 (stop (initialize atmega_16MHz 1000 reset_state)))
   \<and> pwm atmega_16MHz 3 0 0 (stop (initialize atmega_16MHz 1000 reset_state))
       \<noteq> stop (initialize atmega_16MHz 1000 reset_state)"
proof -
  let ?s = "stop (initialize atmega_16MHz 1000 reset_state)"
  have s: "TCCR1B ?s = 16 \<and> clockSelectBits ?s = 1"
    by (simp add: stop_def initialize_def setPeriod_eq prescale_int cycles_of_def bit_defs atmega_16MHz_def reset_state_def)
  have p: "TCCR1B (pwm atmega_16MHz 3 0 0 ?s) = 17"
    using s by (simp add: pwm_other resume_def)
  have a: "Stopped ?s" using s by (simp add: Stopped_def bit_defs)
  have b: "\<not> Stopped (pwm atmega_16MHz 3 0 0 ?s)" using p by (simp add: Stopped_def bit_defs)
  from a b have c: "pwm atmega_16MHz 3 0 0 ?s \<noteq> ?s" by auto
  show ?thesis by (intro conjI a b c)
qed

text \<open>
  Claim C8. For a valid channel (1 or 9 for OCR1A, 2 or 10 for OCR1B) and every duty,
  \<open>setPwmDuty\<close> writes that channel's duty register, with interrupts disabled, and
  besides it only the driver's \<open>oldSREG\<close>: the state is otherwise the same, in
  particular TCCR1B (the run state), TCNT1 (the counter), the other channel's duty
  register and TCCR1A. The value written is \<open>(pwmPeriod * duty) >> 10\<close> in 16 bits, which
  is the exact quotient for a duty from 0 to 1024.
\<close>

theorem setPwmDuty_writes_only_duty_register:
  "(pin = 1 \<or> pin = 9 \<longrightarrow>
      setPwmDuty pin duty s =
        s\<lparr>OCR1A := word_of_int ((uint (pwmPeriod s) * sint duty) div 1024),
          oldSREG := SREG s,
          accesses := accesses s @ [(Wr, OCR1A_reg, False)]\<rparr>
      \<and> OCR1B (setPwmDuty pin duty s) = OCR1B s)
   \<and> (pin = 2 \<or> pin = 10 \<longrightarrow>
      setPwmDuty pin duty s =
        s\<lparr>OCR1B := word_of_int ((uint (pwmPeriod s) * sint duty) div 1024),
          oldSREG := SREG s,
          accesses := accesses s @ [(Wr, OCR1B_reg, False)]\<rparr>
      \<and> OCR1A (setPwmDuty pin duty s) = OCR1A s)
   \<and> (0 \<le> sint duty \<and> sint duty \<le> 1024 \<longrightarrow>
      uint (word_of_int ((uint (pwmPeriod s) * sint duty) div 1024) :: u16)
        = (uint (pwmPeriod s) * sint duty) div 1024)
   \<and> TCCR1B (setPwmDuty pin duty s) = TCCR1B s
   \<and> TCNT1 (setPwmDuty pin duty s) = TCNT1 s
   \<and> TCCR1A (setPwmDuty pin duty s) = TCCR1A s
   \<and> DDRB (setPwmDuty pin duty s) = DDRB s
   \<and> ICR1 (setPwmDuty pin duty s) = ICR1 s
   \<and> SREG (setPwmDuty pin duty s) = SREG s
   \<and> pwmPeriod (setPwmDuty pin duty s) = pwmPeriod s
   \<and> clockSelectBits (setPwmDuty pin duty s) = clockSelectBits s"
proof -
  have a: "pin = 1 \<or> pin = 9 \<longrightarrow>
      setPwmDuty pin duty s =
        s\<lparr>OCR1A := word_of_int ((uint (pwmPeriod s) * sint duty) div 1024),
          oldSREG := SREG s,
          accesses := accesses s @ [(Wr, OCR1A_reg, False)]\<rparr>
      \<and> OCR1B (setPwmDuty pin duty s) = OCR1B s"
    by (simp add: setPwmDuty_A)
  have b: "pin = 2 \<or> pin = 10 \<longrightarrow>
      setPwmDuty pin duty s =
        s\<lparr>OCR1B := word_of_int ((uint (pwmPeriod s) * sint duty) div 1024),
          oldSREG := SREG s,
          accesses := accesses s @ [(Wr, OCR1B_reg, False)]\<rparr>
      \<and> OCR1A (setPwmDuty pin duty s) = OCR1A s"
    by (simp add: setPwmDuty_B)
  have c: "0 \<le> sint duty \<and> sint duty \<le> 1024 \<longrightarrow>
      uint (word_of_int ((uint (pwmPeriod s) * sint duty) div 1024) :: u16)
        = (uint (pwmPeriod s) * sint duty) div 1024"
    by (simp add: duty_exact)
  show ?thesis using a b c setPwmDuty_frame [of pin duty s] by blast
qed

theorem setPwmDuty_writes_only_duty_register_witness:
  "((9 :: u8) = 1 \<or> (9 :: u8) = 9) \<and> ((10 :: u8) = 2 \<or> (10 :: u8) = 10)
   \<and> 0 \<le> sint (512 :: 16 word) \<and> sint (512 :: 16 word) \<le> 1024
   \<and> OCR1A (setPwmDuty 9 512 running_1000) = 500
   \<and> OCR1B (setPwmDuty 9 512 running_1000) = OCR1B running_1000
   \<and> OCR1B (setPwmDuty 10 512 running_1000) = 500
   \<and> OCR1A (setPwmDuty 10 512 running_1000) = OCR1A running_1000
   \<and> uint (word_of_int ((uint (pwmPeriod running_1000) * sint (512 :: 16 word)) div 1024) :: u16) = 500
   \<and> TCCR1B (setPwmDuty 9 512 running_1000) = TCCR1B running_1000"
proof -
  note t9 = setPwmDuty_writes_only_duty_register [of 9 512 running_1000]
  note t10 = setPwmDuty_writes_only_duty_register [of 10 512 running_1000]
  have p9: "(9 :: u8) = 1 \<or> (9 :: u8) = 9" by simp
  have p10: "(10 :: u8) = 2 \<or> (10 :: u8) = 10" by simp
  have d: "0 \<le> sint (512 :: 16 word)" "sint (512 :: 16 word) \<le> 1024" by simp_all
  have v: "(uint (pwmPeriod running_1000) * sint (512 :: 16 word)) div 1024 = 500"
    by (simp add: running_1000_eq)
  from t9 p9 have "setPwmDuty 9 512 running_1000 =
        running_1000\<lparr>OCR1A := word_of_int ((uint (pwmPeriod running_1000) * sint (512 :: 16 word)) div 1024),
          oldSREG := SREG running_1000,
          accesses := accesses running_1000 @ [(Wr, OCR1A_reg, False)]\<rparr>"
    by blast
  then have a: "OCR1A (setPwmDuty 9 512 running_1000) = 500" by (simp add: running_1000_eq)
  from t9 p9 have a': "OCR1B (setPwmDuty 9 512 running_1000) = OCR1B running_1000" by blast
  from t10 p10 have "setPwmDuty 10 512 running_1000 =
        running_1000\<lparr>OCR1B := word_of_int ((uint (pwmPeriod running_1000) * sint (512 :: 16 word)) div 1024),
          oldSREG := SREG running_1000,
          accesses := accesses running_1000 @ [(Wr, OCR1B_reg, False)]\<rparr>"
    by blast
  then have b: "OCR1B (setPwmDuty 10 512 running_1000) = 500" by (simp add: running_1000_eq)
  from t10 p10 have b': "OCR1A (setPwmDuty 10 512 running_1000) = OCR1A running_1000" by blast
  from t9 d have "uint (word_of_int ((uint (pwmPeriod running_1000) * sint (512 :: 16 word)) div 1024) :: u16)
      = (uint (pwmPeriod running_1000) * sint (512 :: 16 word)) div 1024"
    by blast
  with v have c: "uint (word_of_int ((uint (pwmPeriod running_1000) * sint (512 :: 16 word)) div 1024) :: u16) = 500"
    by (simp only:)
  from t9 have f: "TCCR1B (setPwmDuty 9 512 running_1000) = TCCR1B running_1000" by blast
  show ?thesis by (intro conjI p9 p10 d a a' b b' c f)
qed

subsection \<open>The clock-select value\<close>

text \<open>
  Claim C9, as amended. After \<open>setPeriod\<close> or \<open>initialize\<close>, with any period,
  \<open>clockSelectBits\<close> is one of 1, 2, 3, 4, 5, the values the \<open>switch\<close> of \<open>read()\<close>
  decodes. \<open>setPwmDuty\<close>, \<open>disablePwm\<close>, \<open>detachInterrupt\<close>, \<open>resume\<close>, \<open>stop\<close>,
  \<open>start\<close>, \<open>restart\<close> and \<open>read\<close> leave it as it is; \<open>pwm\<close> and
  \<open>attachInterrupt\<close> leave it as it is unless their period is positive, and then give
  it the value \<open>setPeriod\<close> gives it. After \<open>setPeriod\<close> and after \<open>initialize\<close>,
  \<open>pwmPeriod\<close> is below \<open>RESOLUTION\<close>: for every period when \<open>RESOLUTION\<close> is at
  least 65536, and for a smaller positive \<open>RESOLUTION\<close> when the period is nonnegative
  and its cycle count fits the 32-bit \<open>long\<close>.
\<close>

theorem clockSelectBits_invariant:
  "clockSelectBits (setPeriod b us s) \<in> {1, 2, 3, 4, 5}
   \<and> clockSelectBits (initialize b us s) \<in> {1, 2, 3, 4, 5}
   \<and> clockSelectBits (setPwmDuty pin duty s) = clockSelectBits s
   \<and> clockSelectBits (disablePwm pin s) = clockSelectBits s
   \<and> clockSelectBits (detachInterrupt s) = clockSelectBits s
   \<and> clockSelectBits (resume s) = clockSelectBits s
   \<and> clockSelectBits (stop s) = clockSelectBits s
   \<and> (\<forall>s'. start tc s = Some s' \<longrightarrow> clockSelectBits s' = clockSelectBits s)
   \<and> (\<forall>s'. restart tc s = Some s' \<longrightarrow> clockSelectBits s' = clockSelectBits s)
   \<and> (\<forall>v s'. read b tc s = Some (v, s') \<longrightarrow> clockSelectBits s' = clockSelectBits s)
   \<and> clockSelectBits (pwm b pin duty us s) =
       (if 0 < sint us then clockSelectBits (setPeriod b us s) else clockSelectBits s)
   \<and> clockSelectBits (attachInterrupt b isr us s) =
       (if 0 < sint us then clockSelectBits (setPeriod b us s) else clockSelectBits s)
   \<and> ((65536 \<le> sint (RESOLUTION b)
        \<or> (0 < sint (RESOLUTION b) \<and> 0 \<le> sint us
            \<and> uint (F_CPU b) div 2000000 * sint us < 2 ^ 31))
        \<longrightarrow> uint (pwmPeriod (setPeriod b us s)) < sint (RESOLUTION b)
          \<and> uint (pwmPeriod (initialize b us s)) < sint (RESOLUTION b))"
proof -
  have a: "clockSelectBits (setPeriod b us s) \<in> {1, 2, 3, 4, 5}"
    unfolding setPeriod_clockSelectBits by (rule fst_prescale)
  have i: "clockSelectBits (initialize b us s) \<in> {1, 2, 3, 4, 5}"
    unfolding clockSelectBits_initialize setPeriod_clockSelectBits by (rule fst_prescale)
  have st: "\<forall>s'. start tc s = Some s' \<longrightarrow> clockSelectBits s' = clockSelectBits s"
    by (blast intro: start_clockSelectBits)
  have rs: "\<forall>s'. restart tc s = Some s' \<longrightarrow> clockSelectBits s' = clockSelectBits s"
    unfolding restart_def by (blast intro: start_clockSelectBits)
  have rd: "\<forall>v s'. read b tc s = Some (v, s') \<longrightarrow> clockSelectBits s' = clockSelectBits s"
    by (blast intro: read_clockSelectBits)
  have p: "(65536 \<le> sint (RESOLUTION b)
        \<or> (0 < sint (RESOLUTION b) \<and> 0 \<le> sint us
            \<and> uint (F_CPU b) div 2000000 * sint us < 2 ^ 31))
        \<longrightarrow> uint (pwmPeriod (setPeriod b us s)) < sint (RESOLUTION b)
          \<and> uint (pwmPeriod (initialize b us s)) < sint (RESOLUTION b)"
    by (simp only: pwmPeriod_initialize) (blast intro: pwmPeriod_bound)
  show ?thesis
    by (intro conjI a i clockSelectBits_simple st rs rd clockSelectBits_pwm
        clockSelectBits_attachInterrupt p)
qed

theorem clockSelectBits_invariant_witness:
  "start down_samples running_1000 \<noteq> None
   \<and> restart down_samples running_1000 \<noteq> None
   \<and> read atmega_16MHz down_samples running_1000 \<noteq> None
   \<and> 65536 \<le> sint (RESOLUTION atmega_16MHz)
   \<and> map_option clockSelectBits (start down_samples running_1000) = Some 1
   \<and> map_option clockSelectBits (restart down_samples running_1000) = Some 1
   \<and> map_option (clockSelectBits \<circ> snd) (read atmega_16MHz down_samples running_1000) = Some 1
   \<and> uint (pwmPeriod (setPeriod atmega_16MHz 1000 running_1000)) < sint (RESOLUTION atmega_16MHz)
   \<and> uint (pwmPeriod (initialize atmega_16MHz 1000 running_1000)) < sint (RESOLUTION atmega_16MHz)
   \<and> clockSelectBits (setPeriod atmega_16MHz 1000 running_1000) \<in> {1, 2, 3, 4, 5}"
proof -
  note t = clockSelectBits_invariant [of atmega_16MHz 1000 running_1000 0 0 down_samples 0]
  have c: "clockSelectBits running_1000 = 1" by (simp add: running_1000_eq)
  have "down_samples 0 \<noteq> 0" by (simp add: down_samples_def)
  then have "\<exists>s'. start down_samples running_1000 = Some s'"
    by (simp add: start_def Let_def start_wait_returns [of _ 0 0])
  then obtain s1 where s1: "start down_samples running_1000 = Some s1" by blast
  then have s2: "restart down_samples running_1000 = Some s1" by (simp add: restart_def)
  obtain v s3 where s3: "read atmega_16MHz down_samples running_1000 = Some (v, s3)"
    by (simp add: read_returns [OF F_CPU_16MHz(1) down_samples_facts(1-3)])
  have h: "65536 \<le> sint (RESOLUTION atmega_16MHz)"
    by (simp add: RESOLUTION_16MHz)
  from t s1 c have a1: "map_option clockSelectBits (start down_samples running_1000) = Some 1"
    by simp
  from t s2 c have a2: "map_option clockSelectBits (restart down_samples running_1000) = Some 1"
    by simp
  from t s3 c have a3: "map_option (clockSelectBits \<circ> snd) (read atmega_16MHz down_samples running_1000) = Some 1"
    by simp
  from t h have a4: "uint (pwmPeriod (setPeriod atmega_16MHz 1000 running_1000)) < sint (RESOLUTION atmega_16MHz)"
    by blast
  from t h have a5: "uint (pwmPeriod (initialize atmega_16MHz 1000 running_1000)) < sint (RESOLUTION atmega_16MHz)"
    by blast
  from t have a6: "clockSelectBits (setPeriod atmega_16MHz 1000 running_1000) \<in> {1, 2, 3, 4, 5}"
    by blast
  from s1 have n1: "start down_samples running_1000 \<noteq> None" by simp
  from s2 have n2: "restart down_samples running_1000 \<noteq> None" by simp
  from s3 have n3: "read atmega_16MHz down_samples running_1000 \<noteq> None" by simp
  show ?thesis by (intro conjI n1 n2 n3 h a1 a2 a3 a4 a5 a6)
qed

text \<open>
  Claim C9 as stated fails where it says that no other operation modifies
  \<open>clockSelectBits\<close>: \<open>pwm\<close> with a period of one second changes it from 1 to 4.
\<close>

theorem clockSelectBits_invariant_counterexample:
  "clockSelectBits running_1000 = 1
   \<and> clockSelectBits (pwm atmega_16MHz 9 0 1000000 running_1000) = 4
   \<and> clockSelectBits (pwm atmega_16MHz 9 0 1000000 running_1000) \<noteq> clockSelectBits running_1000"
proof -
  have a: "clockSelectBits running_1000 = 1" by (simp add: running_1000_eq)
  have b: "clockSelectBits (pwm atmega_16MHz 9 0 1000000 running_1000) = 4"
    by (simp add: clockSelectBits_pwm setPeriod_clockSelectBits prescale_int cycles_of_def atmega_16MHz_def)
  from a b have c: "clockSelectBits (pwm atmega_16MHz 9 0 1000000 running_1000) \<noteq> clockSelectBits running_1000"
    by simp
  show ?thesis by (intro conjI a b c)
qed

subsection \<open>Reading the timer\<close>

text \<open>
  Claim C3, as amended. When the readings of the counter after the first one repeat it
  until the \<open>j\<close>-th, which differs and is not larger (the down-count phase), and
  \<open>F_CPU / 1000\<close> is not 0, \<open>read()\<close> returns, and the tick count is
  \<open>(ICR1 - second) + ICR1\<close>, without the first sample; the difference is a 16-bit
  difference, and the sum is \<open>(top - second) + top\<close> when the second sample is at most
  the top. The value returned is \<open>ticks * 1000 / (F_CPU / 1000)\<close> shifted left by the
  shift of the clock-select value, in 32-bit unsigned arithmetic.
\<close>

theorem read_down_count_ticks:
  assumes "F_CPU b div 1000 \<noteq> 0" and "0 < j" and "tc j \<noteq> tc 0"
    and "\<forall>k. 0 < k \<and> k < j \<longrightarrow> tc k = tc 0"
    and "tc j \<le> tc 0"
  shows "map_option fst (read b tc s) =
      Some (push_bit (scale_of (clockSelectBits s))
              (((ucast (ICR1 s - tc j) + ucast (ICR1 s)) * 1000) div (F_CPU b div 1000)))
    \<and> (tc j \<le> ICR1 s \<longrightarrow>
        uint (ucast (ICR1 s - tc j) + ucast (ICR1 s) :: ulong)
          = (uint (ICR1 s) - uint (tc j)) + uint (ICR1 s))"
proof -
  have A: "map_option fst (read b tc s) =
      Some (push_bit (scale_of (clockSelectBits s))
              (((ucast (ICR1 s - tc j) + ucast (ICR1 s)) * 1000) div (F_CPU b div 1000)))"
    by (simp only: read_down [OF assms] option.map fst_conv)
  have B: "tc j \<le> ICR1 s \<longrightarrow>
        uint (ucast (ICR1 s - tc j) + ucast (ICR1 s) :: ulong)
          = (uint (ICR1 s) - uint (tc j)) + uint (ICR1 s)"
    using down_ticks_int [of "tc j" "ICR1 s"] by blast
  show ?thesis by (intro conjI A B)
qed

theorem read_down_count_ticks_witness:
  "F_CPU atmega_16MHz div 1000 \<noteq> 0 \<and> 0 < (2 :: nat)
   \<and> down_samples 1 = down_samples 0
   \<and> down_samples 2 \<noteq> down_samples 0
   \<and> down_samples 2 \<le> down_samples 0
   \<and> down_samples 2 \<le> ICR1 running_1000
   \<and> map_option fst (read atmega_16MHz down_samples running_1000) = Some 118
   \<and> uint (ucast (ICR1 running_1000 - down_samples 2) + ucast (ICR1 running_1000) :: ulong) = 1901"
proof -
  note t = read_down_count_ticks [OF F_CPU_16MHz(1) down_samples_facts(1-4), of running_1000]
  have le: "down_samples 2 \<le> ICR1 running_1000"
    by (simp add: running_1000_eq down_samples_def)
  have s: "down_samples 1 = down_samples 0" by (simp add: down_samples_def)
  from t have "map_option fst (read atmega_16MHz down_samples running_1000) =
      Some (push_bit (scale_of (clockSelectBits running_1000))
              (((ucast (ICR1 running_1000 - down_samples 2) + ucast (ICR1 running_1000)) * 1000)
                 div (F_CPU atmega_16MHz div 1000)))"
    by blast
  then have a: "map_option fst (read atmega_16MHz down_samples running_1000) = Some 118"
    by (simp add: running_1000_eq down_samples_facts(5) F_CPU_16MHz(2) scale_of_def)
  from t le have "uint (ucast (ICR1 running_1000 - down_samples 2) + ucast (ICR1 running_1000) :: ulong)
          = (uint (ICR1 running_1000) - uint (down_samples 2)) + uint (ICR1 running_1000)"
    by blast
  then have b: "uint (ucast (ICR1 running_1000 - down_samples 2) + ucast (ICR1 running_1000) :: ulong) = 1901"
    by (simp add: running_1000_eq down_samples_facts(5))
  show ?thesis
    by (intro conjI F_CPU_16MHz(1) down_samples_facts(1) s down_samples_facts(2)
        down_samples_facts(4) le a b)
qed

text \<open>
  Claim C3 as stated fails: with the top 1000, no prescaling, 16 MHz and the samples
  100, 100, 99, \<open>read()\<close> returns 118, from 1901 ticks; the formula of the claim has
  2001 ticks and gives 125.
\<close>

theorem read_down_count_counterexample:
  "down_samples 0 = 100 \<and> down_samples 1 = 100 \<and> down_samples 2 = 99
   \<and> ICR1 running_1000 = 1000 \<and> clockSelectBits running_1000 = 1
   \<and> map_option (uint \<circ> fst) (read atmega_16MHz down_samples running_1000) = Some 118
   \<and> spec_micros (uint (F_CPU atmega_16MHz)) (spec_down_ticks 100 99 1000)
        (scale_of (clockSelectBits running_1000)) = 125
   \<and> map_option (uint \<circ> fst) (read atmega_16MHz down_samples running_1000)
       \<noteq> Some (spec_micros (uint (F_CPU atmega_16MHz)) (spec_down_ticks 100 99 1000)
                 (scale_of (clockSelectBits running_1000)))"
proof -
  have d: "down_samples 0 = 100" "down_samples 1 = 100" "down_samples 2 = 99"
    by (simp_all add: down_samples_def)
  have i: "ICR1 running_1000 = 1000" "clockSelectBits running_1000 = 1"
    by (simp_all add: running_1000_eq)
  have r: "map_option (uint \<circ> fst) (read atmega_16MHz down_samples running_1000) = Some 118"
    by (simp add: read_down [OF F_CPU_16MHz(1) down_samples_facts(1-4)] running_1000_eq
        down_samples_facts(5) F_CPU_16MHz(2) scale_of_def)
  have p: "spec_micros (uint (F_CPU atmega_16MHz)) (spec_down_ticks 100 99 1000)
        (scale_of (clockSelectBits running_1000)) = 125"
    by (simp add: spec_micros_def spec_down_ticks_def atmega_16MHz_def running_1000_eq scale_of_def)
  have n: "map_option (uint \<circ> fst) (read atmega_16MHz down_samples running_1000)
       \<noteq> Some (spec_micros (uint (F_CPU atmega_16MHz)) (spec_down_ticks 100 99 1000)
                 (scale_of (clockSelectBits running_1000)))"
    unfolding r p by simp
  show ?thesis by (intro conjI d i r p n)
qed

subsection \<open>Critical sections\<close>

text \<open>
  Claim C2 at a failing input. \<open>read()\<close> is called with interrupts enabled while the
  counter counts down. The three reads of TCNT1 are made with interrupts disabled, but the
  two reads of ICR1 on line 285 come after SREG has been restored: they are made with
  interrupts enabled. The first entry is the write of ICR1 by the earlier \<open>setPeriod\<close>,
  which is masked.
\<close>

theorem read_reads_ICR1_with_interrupts_enabled:
  "bit (SREG running_1000) SREG_I
   \<and> map_option (accesses \<circ> snd) (read atmega_16MHz down_samples running_1000) =
       Some [(Wr, ICR1_reg, False), (Rd, TCNT1_reg, False), (Rd, TCNT1_reg, False),
             (Rd, TCNT1_reg, False), (Rd, ICR1_reg, True), (Rd, ICR1_reg, True)]"
proof -
  have b: "bit (SREG running_1000) SREG_I"
    by (simp add: running_1000_eq SREG_I_def bit_iff_odd_drop_bit)
  have rep: "replicate 3 x = [x, x, x]" for x :: access
    by (simp add: numeral_3_eq_3)
  have acc: "accesses running_1000 = [(Wr, ICR1_reg, False)]"
    by (simp add: running_1000_eq)
  have "map_option (accesses \<circ> snd) (read atmega_16MHz down_samples running_1000) =
       Some [(Wr, ICR1_reg, False), (Rd, TCNT1_reg, False), (Rd, TCNT1_reg, False),
             (Rd, TCNT1_reg, False), (Rd, ICR1_reg, True), (Rd, ICR1_reg, True)]"
    by (simp add: read_down [OF F_CPU_16MHz(1) down_samples_facts(1-4)] rep b acc)
  with b show ?thesis by (intro conjI)
qed

end
